theory Spec2Isabelle
  imports Main "HOL-Library.Sublist"
begin

section \<open>Values, errors and strings\<close>

text \<open>
  Every value thrown in this program is a JavaScript \<open>Error\<close> (thrown by the program
  itself, by the REST client or by the runtime), so an exception is its message and the
  guards \<open>error instanceof Error\<close> are always true.  Strings are lists of 8-bit code
  units.  Numbers are unbounded integers; JavaScript's doubles agree with them below
  \<open>2 ^ 53\<close>.
\<close>

datatype exn = Error (message: string)

definition digit_char :: "nat \<Rightarrow> char" where
  "digit_char n = (''0123456789'' ! n)"

function string_of_nat :: "nat \<Rightarrow> string" where
  "string_of_nat n =
     (if n < 10 then [digit_char n] else string_of_nat (n div 10) @ [digit_char (n mod 10)])"
  by pat_completeness auto
termination
  by (relation "measure id") auto

definition string_of_int :: "int \<Rightarrow> string" where
  "string_of_int i = (if i < 0 then CHR ''-'' # string_of_nat (nat (- i)) else string_of_nat (nat i))"

text \<open>\<open>String.prototype.split\<close> on a one-character separator.\<close>

fun split_on :: "char \<Rightarrow> string \<Rightarrow> string list" where
  "split_on c [] = [[]]"
| "split_on c (x # xs) =
     (if x = c then [] # split_on c xs
      else (case split_on c xs of y # ys \<Rightarrow> (x # y) # ys | [] \<Rightarrow> [[x]]))"

subsection \<open>\<open>parseInt\<close> and \<open>getNumberFromValue\<close>\<close>

text \<open>
  \<open>parseInt\<close> without a radix: leading white space is skipped, a sign is read, a
  \<open>0x\<close> prefix selects radix 16, and the longest prefix of digits is converted; no digit
  gives \<open>NaN\<close>, here \<open>None\<close>.
\<close>

definition isWhiteSpace :: "char \<Rightarrow> bool" where
  "isWhiteSpace c = (c \<in> set [CHR 0x09, CHR 0x0A, CHR 0x0B, CHR 0x0C, CHR 0x0D, CHR 0x20])"

definition digitValue :: "char \<Rightarrow> nat option" where
  "digitValue = map_of
     [(CHR ''0'', 0), (CHR ''1'', 1), (CHR ''2'', 2), (CHR ''3'', 3), (CHR ''4'', 4),
      (CHR ''5'', 5), (CHR ''6'', 6), (CHR ''7'', 7), (CHR ''8'', 8), (CHR ''9'', 9),
      (CHR ''a'', 10), (CHR ''b'', 11), (CHR ''c'', 12), (CHR ''d'', 13), (CHR ''e'', 14),
      (CHR ''f'', 15), (CHR ''A'', 10), (CHR ''B'', 11), (CHR ''C'', 12), (CHR ''D'', 13),
      (CHR ''E'', 14), (CHR ''F'', 15)]"

definition isDigit :: "nat \<Rightarrow> char \<Rightarrow> bool" where
  "isDigit radix c = (case digitValue c of Some d \<Rightarrow> d < radix | None \<Rightarrow> False)"

definition digitsValue :: "nat \<Rightarrow> string \<Rightarrow> int" where
  "digitsValue radix ds =
     foldl (\<lambda>acc c. acc * int radix + (case digitValue c of Some d \<Rightarrow> int d | None \<Rightarrow> 0)) 0 ds"

definition parseInt :: "string \<Rightarrow> int option" where
  "parseInt s =
     (let s1 = dropWhile isWhiteSpace s;
          neg = (case s1 of c # _ \<Rightarrow> c = CHR ''-'' | [] \<Rightarrow> False);
          s2 = (case s1 of c # r \<Rightarrow> if c = CHR ''-'' \<or> c = CHR ''+'' then r else s1 | [] \<Rightarrow> s1);
          hex = (case s2 of a # b # _ \<Rightarrow> a = CHR ''0'' \<and> (b = CHR ''x'' \<or> b = CHR ''X'') | _ \<Rightarrow> False);
          radix = (if hex then 16 else 10);
          s3 = (if hex then drop 2 s2 else s2);
          ds = takeWhile (isDigit radix) s3
      in if ds = [] then None
         else Some (if neg then - digitsValue radix ds else digitsValue radix ds))"

definition getNumberFromValue :: "string \<Rightarrow> exn + int option" where
  "getNumberFromValue value =
     (if value = [] then Inr None
      else (case parseInt value of
              None \<Rightarrow> Inl (Error (''Unable to parse value: '' @ value))
            | Some num \<Rightarrow> Inr (Some num)))"

text \<open>\<open>v || d\<close> on \<open>number | undefined\<close>: \<open>undefined\<close> and \<open>0\<close> are falsy.\<close>

definition or_default :: "int option \<Rightarrow> int \<Rightarrow> int" where
  "or_default v d = (case v of None \<Rightarrow> d | Some n \<Rightarrow> if n = 0 then d else n)"

definition WORKFLOW_FETCH_TIMEOUT_MS :: int where
  "WORKFLOW_FETCH_TIMEOUT_MS = 60 * 1000"

definition WORKFLOW_JOB_STEPS_RETRY_MS :: int where
  "WORKFLOW_JOB_STEPS_RETRY_MS = 5000"

definition WORKFLOW_TIMEOUT_SECONDS :: int where
  "WORKFLOW_TIMEOUT_SECONDS = 5 * 60"

subsection \<open>\<open>getBranchName\<close>\<close>

text \<open>
  Modelled from the spec: \<open>getBranchName\<close> of \<open>./utils\<close>, which is imported by
  \<open>dispatch.ts\<close> and is not among the sources.  The specification says: a ref of the
  form \<open>refs/heads/<branch>\<close> yields \<open><branch>\<close>; tag refs and other ref shapes yield
  no branch.
\<close>

definition getBranchName :: "string \<Rightarrow> string option" where
  "getBranchName r =
     (if prefix ''refs/heads/'' r then Some (drop (length ''refs/heads/'') r) else None)"

section \<open>The platform, the clock and the trace\<close>

text \<open>
  A request to the REST client.  The arguments are, in this order:
  \<^item> \<open>ListRepoWorkflows owner repo ref inputs\<close>
  \<^item> \<open>DispatchWorkflow owner repo workflow_id ref inputs\<close>
  \<^item> \<open>ListWorkflowRuns owner repo workflow_id branch per_page\<close>
  \<^item> \<open>ListJobsForWorkflowRun owner repo run_id filter\<close>

  \<open>repo\<close> is optional because \<open>run\<close> takes it from \<open>split('/')\<close>, which yields
  \<open>undefined\<close> for an input without a slash.
\<close>

datatype request =
    ListRepoWorkflows string "string option" string "(string \<times> string) list"
  | DispatchWorkflow string "string option" int string "(string \<times> string) list"
  | ListWorkflowRuns string "string option" int "string option" nat
  | ListJobsForWorkflowRun string "string option" int string

text \<open>
  What the action does to the outside, in order.  \<open>RetryOrDie t\<close> is not an effect: it
  records that \<open>applyWorkflowRunId\<close> calls \<open>retryOrDie\<close> with the timeout \<open>t\<close>.  The
  diagnostics \<open>core.debug\<close>, \<open>core.info\<close> and \<open>core.error\<close> are left out.
\<close>

datatype event =
    Request request
  | Sleep int
  | RetryOrDie int
  | SetOutput string int
  | Warning string
  | SetFailed string

text \<open>The clock is \<open>Date.now()\<close> in milliseconds; each event carries the time it happened.\<close>

record world =
  clock :: int
  trace :: "(int \<times> event) list"

datatype workflow = Workflow (wf_id: int) (wf_name: string) (wf_path: string)

datatype workflow_run = WorkflowRun (run_id: int)

datatype runs_response = RunsResponse (runs_status: int) (workflow_runs: "workflow_run list")

datatype step = Step (step_name: string)

datatype job = Job (job_id: int) (job_steps: "step list option")

datatype jobs_response = JobsResponse (jobs_status: int) (jobs: "job list")

text \<open>
  The environment of the action: the hosting platform behind the REST client and the
  JavaScript runtime.  An answer may depend on the time and on everything done so far (the
  world at the moment of the call).  A call takes \<open>latency\<close> milliseconds and a timer
  fires \<open>timer_lag\<close> milliseconds late; both are natural numbers, so the clock never runs
  backwards.  \<open>JSON_parse\<close> is \<open>JSON.parse\<close> on the \<open>inputs\<close> of the action, a flat
  map of strings.  \<open>RegExp_engine\<close> is the constructor \<open>RegExp\<close> on the patterns that
  the fragment below does not cover: it throws or yields the \<open>test\<close> function.
\<close>

record platform =
  listRepoWorkflows :: "world \<Rightarrow> request \<Rightarrow> exn + workflow list"
  dispatchWorkflow :: "world \<Rightarrow> request \<Rightarrow> exn + int"
  listWorkflowRuns :: "world \<Rightarrow> request \<Rightarrow> exn + runs_response"
  listJobsForWorkflowRun :: "world \<Rightarrow> request \<Rightarrow> exn + jobs_response"
  latency :: "world \<Rightarrow> request \<Rightarrow> nat"
  timer_lag :: "world \<Rightarrow> nat"
  JSON_parse :: "string \<Rightarrow> exn + (string \<times> string) list"
  RegExp_engine :: "string \<Rightarrow> exn + (string \<Rightarrow> bool)"

definition emit :: "event \<Rightarrow> world \<Rightarrow> world" where
  "emit e w = w\<lparr>trace := trace w @ [(clock w, e)]\<rparr>"

text \<open>The world after a REST call has been awaited.\<close>

definition call :: "platform \<Rightarrow> request \<Rightarrow> world \<Rightarrow> world" where
  "call p rq w = (emit (Request rq) w)\<lparr>clock := clock w + int (latency p w rq)\<rparr>"

text \<open>\<open>await new Promise((resolve) => setTimeout(resolve, ms))\<close>\<close>

definition sleep :: "platform \<Rightarrow> int \<Rightarrow> world \<Rightarrow> world" where
  "sleep p ms w = (emit (Sleep ms) w)\<lparr>clock := clock w + ms + int (timer_lag p w)\<rparr>"

record config =
  token :: string
  ref :: string
  repo :: "string option"
  owner :: string
  commitId :: "string option"
  workflowTimeoutSeconds :: string

section \<open>\<open>dispatch.ts\<close>\<close>

text \<open>
  The main task calls the functions of \<open>dispatch.ts\<close>, which are the ones embedded here.
  \<open>api.ts\<close> holds a second copy of them that the main task does not call; its loop differs
  in that it takes the marker from a generated identifier, fetches the URL of the run before
  it sets the output, and names the output \<open>run_id\<close>.
\<close>

subsection \<open>\<open>getWorkflowRunIds\<close>\<close>

text \<open>
  The \<open>params\<close> object.  \<open>branchName ? \<dots> : \<dots>\<close> tests truthiness: \<open>undefined\<close>
  and the empty string take the second branch.
\<close>

definition listWorkflowRuns_params :: "int \<Rightarrow> config \<Rightarrow> request" where
  "listWorkflowRuns_params workflowId cfg =
     (case getBranchName (ref cfg) of
        Some branchName \<Rightarrow>
          if branchName \<noteq> [] then ListWorkflowRuns (owner cfg) (repo cfg) workflowId (Some branchName) 5
          else ListWorkflowRuns (owner cfg) (repo cfg) workflowId None 10
      | None \<Rightarrow> ListWorkflowRuns (owner cfg) (repo cfg) workflowId None 10)"

definition getWorkflowRunIds :: "platform \<Rightarrow> int \<Rightarrow> config \<Rightarrow> world \<Rightarrow> (exn + int list) \<times> world" where
  "getWorkflowRunIds p workflowId cfg w =
     (let params = listWorkflowRuns_params workflowId cfg
      in case listWorkflowRuns p w params of
           Inl e \<Rightarrow> (Inl e, call p params w)
         | Inr response \<Rightarrow>
             if runs_status response \<noteq> 200
             then (Inl (Error (''Failed to get Workflow runs, expected 200 but received '' @
                               string_of_int (runs_status response))), call p params w)
             else (Inr (map run_id (workflow_runs response)), call p params w))"

subsection \<open>\<open>getWorkflowRunJobSteps\<close>\<close>

text \<open>\<open>Array.from(new Set(allSteps))\<close>: a \<open>Set\<close> keeps its elements in insertion order.\<close>

definition Array_from_Set :: "'a list \<Rightarrow> 'a list" where
  "Array_from_Set xs = foldl (\<lambda>acc x. if x \<in> set acc then acc else acc @ [x]) [] xs"

text \<open>\<open>job.steps?.map((step) => step.name) || []\<close>\<close>

definition job_step_names :: "job \<Rightarrow> string list" where
  "job_step_names j = (case job_steps j of None \<Rightarrow> [] | Some ss \<Rightarrow> map step_name ss)"

definition allSteps :: "jobs_response \<Rightarrow> string list" where
  "allSteps response = concat (map job_step_names (jobs response))"

definition listJobs_params :: "int \<Rightarrow> config \<Rightarrow> request" where
  "listJobs_params runId cfg = ListJobsForWorkflowRun (owner cfg) (repo cfg) runId ''latest''"

definition getWorkflowRunJobSteps :: "platform \<Rightarrow> int \<Rightarrow> config \<Rightarrow> world \<Rightarrow> (exn + string list) \<times> world" where
  "getWorkflowRunJobSteps p runId cfg w =
     (let params = listJobs_params runId cfg
      in case listJobsForWorkflowRun p w params of
           Inl e \<Rightarrow> (Inl e, call p params w)
         | Inr response \<Rightarrow>
             if jobs_status response \<noteq> 200
             then (Inl (Error (''Failed to get Workflow Run Jobs, expected 200 but received '' @
                               string_of_int (jobs_status response))), call p params w)
             else (Inr (Array_from_Set (allSteps response)), call p params w))"

subsection \<open>\<open>new RegExp(config.commitId)\<close> and \<open>idRegex.test\<close>\<close>

text \<open>
  The patterns made of ordinary characters, the wildcard \<open>.\<close> and escaped syntax
  characters are interpreted here, as ECMAScript does without flags: \<open>test\<close> searches
  the string for a position where the pattern matches.  Any other pattern is left to
  \<open>RegExp_engine\<close>.  \<open>new RegExp(undefined)\<close> is the empty pattern.
\<close>

definition SyntaxCharacter :: "char \<Rightarrow> bool" where
  "SyntaxCharacter c =
     (c \<in> set [CHR ''^'', CHR ''$'', CHR 0x5C, CHR ''.'', CHR ''*'', CHR ''+'', CHR ''?'',
               CHR ''('', CHR '')'', CHR ''['', CHR '']'', CHR ''{'', CHR ''}'', CHR ''|''])"

datatype atom = Literal char | Dot

fun parse_atoms :: "string \<Rightarrow> atom list option" where
  "parse_atoms [] = Some []"
| "parse_atoms (c # cs) =
     (if c = CHR 0x5C then
        (case cs of
           [] \<Rightarrow> None
         | d # ds \<Rightarrow>
             if SyntaxCharacter d \<or> d = CHR ''/'' then map_option ((#) (Literal d)) (parse_atoms ds)
             else None)
      else if c = CHR ''.'' then map_option ((#) Dot) (parse_atoms cs)
      else if SyntaxCharacter c then None
      else map_option ((#) (Literal c)) (parse_atoms cs))"

fun atom_matches :: "atom \<Rightarrow> char \<Rightarrow> bool" where
  "atom_matches (Literal c) d = (c = d)"
| "atom_matches Dot d = (d \<noteq> CHR 0x0A \<and> d \<noteq> CHR 0x0D)"

fun match_here :: "atom list \<Rightarrow> string \<Rightarrow> bool" where
  "match_here [] s = True"
| "match_here (a # as) [] = False"
| "match_here (a # as) (c # cs) = (atom_matches a c \<and> match_here as cs)"

fun search :: "atom list \<Rightarrow> string \<Rightarrow> bool" where
  "search as [] = match_here as []"
| "search as (c # cs) = (match_here as (c # cs) \<or> search as cs)"

definition RegExp :: "platform \<Rightarrow> string option \<Rightarrow> exn + (string \<Rightarrow> bool)" where
  "RegExp p pattern =
     (case pattern of
        None \<Rightarrow> Inr (search [])
      | Some src \<Rightarrow>
          (case parse_atoms src of Some as \<Rightarrow> Inr (search as) | None \<Rightarrow> RegExp_engine p src))"

subsection \<open>\<open>retryOrDie\<close>\<close>

text \<open>
  The \<open>while\<close> loop, entered with \<open>elapsedTime\<close>.  Whether it ends depends on the
  clock, so the value is optional: \<open>None\<close> is a loop that never ends.
\<close>

partial_function (option) retryOrDie_loop ::
  "platform \<Rightarrow> (world \<Rightarrow> (exn + 'a list) \<times> world) \<Rightarrow> int \<Rightarrow> int \<Rightarrow> int \<Rightarrow> world
     \<Rightarrow> ((exn + 'a list) \<times> world) option" where
  "retryOrDie_loop p retryFunc timeoutMs startTime elapsedTime w =
     (if elapsedTime < timeoutMs then
        (case retryFunc w of
           (Inl e, w1) \<Rightarrow> Some (Inl e, w1)
         | (Inr response, w1) \<Rightarrow>
             if length response > 0 then Some (Inr response, w1)
             else retryOrDie_loop p retryFunc timeoutMs startTime (clock w - startTime)
                    (sleep p 1000 w1))
      else Some (Inl (Error ''Timed out while attempting to fetch data''), w))"

declare retryOrDie_loop.simps [code]

definition retryOrDie ::
  "platform \<Rightarrow> (world \<Rightarrow> (exn + 'a list) \<times> world) \<Rightarrow> int \<Rightarrow> world
     \<Rightarrow> ((exn + 'a list) \<times> world) option" where
  "retryOrDie p retryFunc timeoutMs w = retryOrDie_loop p retryFunc timeoutMs (clock w) 0 w"

text \<open>
  One fruitless round of \<open>retryOrDie\<close>: the producer is awaited, then the timer of one
  second.  Its \<open>k\<close>-th iterate is the world in which round \<open>k\<close> (counted from 0) starts
  when all rounds before it were fruitless.
\<close>

definition attempt_then_backoff ::
  "platform \<Rightarrow> (world \<Rightarrow> (exn + 'a list) \<times> world) \<Rightarrow> world \<Rightarrow> world" where
  "attempt_then_backoff p retryFunc w = sleep p 1000 (snd (retryFunc w))"

subsection \<open>\<open>applyWorkflowRunId\<close>\<close>

text \<open>How the body of the \<open>for\<close> loop over the run ids is left.\<close>

datatype loop_exit = Return | Throw exn | Continue

text \<open>
  The loop \<open>for (const runId of workflowRunIds)\<close> with its \<open>try\<close>/\<open>catch\<close>.  The inner
  loop over the steps returns at the first step that \<open>idRegex.test\<close> accepts.
\<close>

fun inspect_runs ::
  "platform \<Rightarrow> config \<Rightarrow> (string \<Rightarrow> bool) \<Rightarrow> int list \<Rightarrow> world \<Rightarrow> loop_exit \<times> world" where
  "inspect_runs p cfg idRegex_test [] w = (Continue, w)"
| "inspect_runs p cfg idRegex_test (runId # rest) w =
     (case getWorkflowRunJobSteps p runId cfg w of
        (Inr steps, w1) \<Rightarrow>
          if list_ex idRegex_test steps then (Return, emit (SetOutput ''runId'' runId) w1)
          else inspect_runs p cfg idRegex_test rest w1
      | (Inl error, w1) \<Rightarrow>
          if message error \<noteq> ''Not Found'' then (Throw error, w1)
          else inspect_runs p cfg idRegex_test rest w1)"

text \<open>The \<open>while (elapsedTime < timeoutMs)\<close> loop and the \<open>throw\<close> after it.\<close>

partial_function (option) search_loop ::
  "platform \<Rightarrow> int \<Rightarrow> config \<Rightarrow> int \<Rightarrow> int \<Rightarrow> int \<Rightarrow> nat \<Rightarrow> world
     \<Rightarrow> ((exn + unit) \<times> world) option" where
  "search_loop p workflowId cfg timeoutMs startTime elapsedTime attemptNo w =
     (if elapsedTime < timeoutMs then
        (let timeout = (if WORKFLOW_FETCH_TIMEOUT_MS > timeoutMs then timeoutMs
                        else WORKFLOW_FETCH_TIMEOUT_MS)
         in case retryOrDie p (getWorkflowRunIds p workflowId cfg) timeout
                   (emit (RetryOrDie timeout) w) of
              None \<Rightarrow> None
            | Some (Inl e, w1) \<Rightarrow> Some (Inl e, w1)
            | Some (Inr workflowRunIds, w1) \<Rightarrow>
                (case RegExp p (commitId cfg) of
                   Inl e \<Rightarrow> Some (Inl e, w1)
                 | Inr idRegex_test \<Rightarrow>
                     (case inspect_runs p cfg idRegex_test workflowRunIds w1 of
                        (Return, w2) \<Rightarrow> Some (Inr (), w2)
                      | (Throw e, w2) \<Rightarrow> Some (Inl e, w2)
                      | (Continue, w2) \<Rightarrow>
                          search_loop p workflowId cfg timeoutMs startTime (clock w - startTime)
                            (attemptNo + 1) (sleep p WORKFLOW_JOB_STEPS_RETRY_MS w2))))
      else Some (Inl (Error ''Timeout exceeded while attempting to get Run ID''), w))"

declare search_loop.simps [code]

text \<open>The \<open>catch\<close> block of \<open>applyWorkflowRunId\<close>.\<close>

definition apply_catch :: "exn \<Rightarrow> world \<Rightarrow> world" where
  "apply_catch error w =
     emit (SetFailed (message error))
       (emit (Warning ''Does the token have the correct permissions?'') w)"

text \<open>
  \<open>applyWorkflowRunId\<close> from the head of its \<open>while\<close> loop on: the loop, the \<open>throw\<close>
  after it and the \<open>catch\<close> block.
\<close>

definition resolve_from ::
  "platform \<Rightarrow> int \<Rightarrow> config \<Rightarrow> int \<Rightarrow> int \<Rightarrow> int \<Rightarrow> nat \<Rightarrow> world \<Rightarrow> world option" where
  "resolve_from p workflowId cfg timeoutMs startTime elapsedTime attemptNo w =
     (case search_loop p workflowId cfg timeoutMs startTime elapsedTime attemptNo w of
        None \<Rightarrow> None
      | Some (Inl e, w') \<Rightarrow> Some (apply_catch e w')
      | Some (Inr u, w') \<Rightarrow> Some w')"

definition applyWorkflowRunId :: "platform \<Rightarrow> int \<Rightarrow> config \<Rightarrow> world \<Rightarrow> world option" where
  "applyWorkflowRunId p workflowId cfg w =
     (let startTime = clock w
      in case getNumberFromValue (workflowTimeoutSeconds cfg) of
           Inl e \<Rightarrow> Some (apply_catch e w)
         | Inr v \<Rightarrow>
             (let timeoutMs = or_default v WORKFLOW_TIMEOUT_SECONDS * 1000;
                  attemptNo = 0;
                  elapsedTime = clock w - startTime
              in resolve_from p workflowId cfg timeoutMs startTime elapsedTime attemptNo w))"

section \<open>The main task: \<open>run\<close>\<close>

record action_env =
  getInput :: "string \<Rightarrow> string"
  context_ref :: string
  context_owner :: string
  context_repo :: string

definition workflow_matches :: "string \<Rightarrow> workflow \<Rightarrow> bool" where
  "workflow_matches workflowRef wfl =
     (wf_name wfl = workflowRef \<or> string_of_int (wf_id wfl) = workflowRef \<or>
      suffix workflowRef (wf_path wfl))"

definition not_found_message :: "string \<Rightarrow> string \<Rightarrow> string option \<Rightarrow> string" where
  "not_found_message workflowRef ownr rpo =
     ''Unable to find workflow '' @ [CHR 0x27] @ workflowRef @ [CHR 0x27] @ '' in '' @ ownr @ ''/'' @
     (case rpo of None \<Rightarrow> ''undefined'' | Some r \<Rightarrow> r) @ [CHR 0x20, CHR 0xF0, CHR 0x9F, CHR 0x98, CHR 0xA5]"

text \<open>\<open>core.getInput('ref') || github.context.ref\<close>\<close>

definition dispatch_ref :: "action_env \<Rightarrow> string" where
  "dispatch_ref env = (if getInput env ''ref'' \<noteq> [] then getInput env ''ref'' else context_ref env)"

text \<open>
  \<open>const [owner, repo] = core.getInput('repo') ? core.getInput('repo').split('/') : [\<dots>]\<close>:
  the first two parts; the second is \<open>undefined\<close> when the input has no slash.
\<close>

definition owner_repo :: "action_env \<Rightarrow> string \<times> string option" where
  "owner_repo env =
     (if getInput env ''repo'' \<noteq> [] then
        (case split_on CHR ''/'' (getInput env ''repo'') of
           a # b # _ \<Rightarrow> (a, Some b)
         | [a] \<Rightarrow> (a, None)
         | [] \<Rightarrow> ([], None))
      else (context_owner env, Some (context_repo env)))"

text \<open>
  The \<open>inputs\<close> of the dispatch.  Without the input \<open>inputs\<close> the object is
  \<open>{"commitId": github['sha']}\<close>, whose only member is \<open>undefined\<close>.
\<close>

definition decode_inputs :: "platform \<Rightarrow> action_env \<Rightarrow> exn + (string \<times> string) list" where
  "decode_inputs p env =
     (if getInput env ''inputs'' \<noteq> [] then JSON_parse p (getInput env ''inputs'') else Inr [])"

text \<open>The \<open>try\<close> block.  \<open>octokit.paginate\<close> is one request here.\<close>

definition run_try :: "platform \<Rightarrow> action_env \<Rightarrow> world \<Rightarrow> ((exn + unit) \<times> world) option" where
  "run_try p env w =
     (let workflowRef = getInput env ''workflow'';
          tok = getInput env ''token'';
          rf = dispatch_ref env;
          ownr = fst (owner_repo env);
          rpo = snd (owner_repo env)
      in case decode_inputs p env of
           Inl e \<Rightarrow> Some (Inl e, w)
         | Inr inputs \<Rightarrow>
             (let list_rq = ListRepoWorkflows ownr rpo rf inputs
              in case listRepoWorkflows p w list_rq of
                   Inl e \<Rightarrow> Some (Inl e, call p list_rq w)
                 | Inr workflows \<Rightarrow>
                     (case find (workflow_matches workflowRef) workflows of
                        None \<Rightarrow> Some (Inl (Error (not_found_message workflowRef ownr rpo)),
                                      call p list_rq w)
                      | Some foundWorkflow \<Rightarrow>
                          (let w1 = call p list_rq w;
                               dispatch_rq = DispatchWorkflow ownr rpo (wf_id foundWorkflow) rf inputs
                           in case dispatchWorkflow p w1 dispatch_rq of
                                Inl e \<Rightarrow> Some (Inl e, call p dispatch_rq w1)
                              | Inr dispatchResp \<Rightarrow>
                                  map_option (Pair (Inr ()))
                                    (applyWorkflowRunId p (wf_id foundWorkflow)
                                       \<lparr>token = tok, ref = rf, repo = rpo, owner = ownr,
                                        commitId = map_of inputs ''commitId'',
                                        workflowTimeoutSeconds = getInput env ''workflow_timeout_seconds''\<rparr>
                                       (emit (SetOutput ''workflowId'' (wf_id foundWorkflow))
                                          (call p dispatch_rq w1)))))))"

text \<open>\<open>run\<close> with its \<open>catch\<close> block.\<close>

definition run :: "platform \<Rightarrow> action_env \<Rightarrow> world \<Rightarrow> world option" where
  "run p env w =
     (case run_try p env w of
        None \<Rightarrow> None
      | Some (Inr u, w') \<Rightarrow> Some w'
      | Some (Inl e, w') \<Rightarrow>
          if suffix ''a disabled workflow'' (message e)
          then Some (emit (Warning ''Workflow is disabled, no action was taken'') w')
          else Some (emit (SetFailed (message e)) w'))"

section \<open>Reading a trace\<close>

text \<open>
  The outputs set, the failures signalled and the timeouts handed to \<open>retryOrDie\<close> (each
  with the time of the call), in the order of the trace.
\<close>

definition outputs :: "(int \<times> event) list \<Rightarrow> (string \<times> int) list" where
  "outputs tr = concat (map (\<lambda>te. case snd te of SetOutput n v \<Rightarrow> [(n, v)] | _ \<Rightarrow> []) tr)"

definition failures :: "(int \<times> event) list \<Rightarrow> string list" where
  "failures tr = concat (map (\<lambda>te. case snd te of SetFailed m \<Rightarrow> [m] | _ \<Rightarrow> []) tr)"

definition budgets :: "(int \<times> event) list \<Rightarrow> (int \<times> int) list" where
  "budgets tr = concat (map (\<lambda>te. case snd te of RetryOrDie b \<Rightarrow> [(fst te, b)] | _ \<Rightarrow> []) tr)"

text \<open>The events of polling: a request, or the backoff of one second inside \<open>retryOrDie\<close>.\<close>

definition polling :: "event \<Rightarrow> bool" where
  "polling e = (case e of Request rq \<Rightarrow> True | Sleep ms \<Rightarrow> ms = 1000 | _ \<Rightarrow> False)"


text \<open>
  Following the specification's words, for comparison with the code: the budget of a round
  is \<open>min(60s, remaining overall budget)\<close>, the remaining overall budget being the
  overall timeout minus the time already elapsed in this resolution; and the trace in which
  every call of \<open>retryOrDie\<close> carries that budget.
\<close>

definition remaining_budget :: "int \<Rightarrow> int \<Rightarrow> int \<Rightarrow> int" where
  "remaining_budget timeoutMs startTime now =
     min WORKFLOW_FETCH_TIMEOUT_MS (timeoutMs - (now - startTime))"

definition budgets_follow_remaining :: "int \<Rightarrow> int \<Rightarrow> (int \<times> event) list \<Rightarrow> bool" where
  "budgets_follow_remaining timeoutMs startTime tr =
     list_all (\<lambda>tb. snd tb = remaining_budget timeoutMs startTime (fst tb)) (budgets tr)"

text \<open>
  How the inspection of one run ends in a given world.  A run is passed over when its job
  listing fails with the message \<open>Not Found\<close> or none of its step names passes the test;
  it has the marker when the listing succeeds and a step name passes the test.
\<close>

definition passed_over :: "platform \<Rightarrow> config \<Rightarrow> (string \<Rightarrow> bool) \<Rightarrow> int \<Rightarrow> world \<Rightarrow> bool" where
  "passed_over p cfg idRegex_test runId w =
     (case fst (getWorkflowRunJobSteps p runId cfg w) of
        Inl e \<Rightarrow> message e = ''Not Found''
      | Inr steps \<Rightarrow> \<not> list_ex idRegex_test steps)"

definition has_marker :: "platform \<Rightarrow> config \<Rightarrow> (string \<Rightarrow> bool) \<Rightarrow> int \<Rightarrow> world \<Rightarrow> bool" where
  "has_marker p cfg idRegex_test runId w =
     (case fst (getWorkflowRunJobSteps p runId cfg w) of
        Inl e \<Rightarrow> False
      | Inr steps \<Rightarrow> list_ex idRegex_test steps)"


section \<open>Scenarios\<close>

definition demo_inputs :: string where
  "demo_inputs =
     ''{'' @ [CHR 0x22] @ ''commitId'' @ [CHR 0x22] @ '': '' @ [CHR 0x22] @ ''M1'' @ [CHR 0x22] @ ''}''"

text \<open>
  A platform that answers at once and whose timers are exact.  It lists the runs \<open>ids\<close>
  and answers the job listing of a run by \<open>jobs_of\<close>.  It has one workflow and accepts
  its dispatch.
\<close>

definition scenario :: "int list \<Rightarrow> (int \<Rightarrow> exn + jobs_response) \<Rightarrow> platform" where
  "scenario ids jobs_of =
     \<lparr>listRepoWorkflows = (\<lambda>w rq. Inr [Workflow 7 ''Message Echo 2'' ''.github/workflows/echo-2.yaml'']),
      dispatchWorkflow = (\<lambda>w rq. Inr 204),
      listWorkflowRuns = (\<lambda>w rq. Inr (RunsResponse 200 (map WorkflowRun ids))),
      listJobsForWorkflowRun =
        (\<lambda>w rq. case rq of ListJobsForWorkflowRun ow rp i f \<Rightarrow> jobs_of i
                  | _ \<Rightarrow> Inl (Error ''Not Found'')),
      latency = (\<lambda>w rq. 0),
      timer_lag = (\<lambda>w. 0),
      JSON_parse = (\<lambda>s. if s = demo_inputs then Inr [(''commitId'', ''M1'')]
                        else Inl (Error ''Unexpected end of JSON input'')),
      RegExp_engine = (\<lambda>s. Inl (Error ''Invalid regular expression''))\<rparr>"

text \<open>
  Run 100 is not yet queryable, run 101 has no step with the marker \<open>M1\<close>, run 102 has
  one; run 103 makes the job listing fail.
\<close>

definition demo_jobs :: "int \<Rightarrow> exn + jobs_response" where
  "demo_jobs i =
     (if i = 101 then Inr (JobsResponse 200 [Job 1 (Some [Step ''checkout'', Step ''build''])])
      else if i = 102 then
        Inr (JobsResponse 200
          [Job 1 (Some [Step ''checkout'', Step ''build'']), Job 2 None,
           Job 3 (Some [Step ''build'', Step ''checkout'', Step ''echo M1 done''])])
      else if i = 103 then Inl (Error ''Bad credentials'')
      else Inl (Error ''Not Found''))"

definition demo_config :: config where
  "demo_config =
     \<lparr>token = ''secret'', ref = ''refs/heads/main'', repo = Some ''workflow-dispatch'',
      owner = ''microtema'', commitId = Some ''M1'', workflowTimeoutSeconds = ''6''\<rparr>"

text \<open>The inputs of the action in the scenarios, and the answer to the dispatch of a disabled workflow.\<close>

definition demo_env :: action_env where
  "demo_env =
     \<lparr>getInput = (\<lambda>name.
        if name = ''workflow'' then ''echo-2.yaml''
        else if name = ''token'' then ''secret''
        else if name = ''inputs'' then demo_inputs
        else if name = ''workflow_timeout_seconds'' then ''6''
        else []),
      context_ref = ''refs/heads/main'',
      context_owner = ''microtema'',
      context_repo = ''workflow-dispatch''\<rparr>"

definition disabled_workflow_message :: string where
  "disabled_workflow_message =
     ''Cannot trigger a '' @ [CHR 0x27] @ ''workflow_dispatch'' @ [CHR 0x27] @ '' on a disabled workflow''"

definition world0 :: world where
  "world0 = \<lparr>clock = 0, trace = []\<rparr>"

text \<open>Two producers for \<open>retryOrDie\<close>: one has runs from the time \<open>t\<close> on, one never.\<close>

definition ready_at :: "int \<Rightarrow> world \<Rightarrow> (exn + int list) \<times> world" where
  "ready_at t w = (if clock w < t then Inr [] else Inr [101], w)"

definition never_ready :: "world \<Rightarrow> (exn + int list) \<times> world" where
  "never_ready w = (Inr [], w)"

text \<open>A producer that takes three seconds to answer, and has runs from the time \<open>t\<close> on.\<close>

definition slow_ready_at :: "int \<Rightarrow> world \<Rightarrow> (exn + int list) \<times> world" where
  "slow_ready_at t w = (if clock w < t then Inr [] else Inr [101], w\<lparr>clock := clock w + 3000\<rparr>)"


section \<open>Properties\<close>

subsection \<open>The clock\<close>

lemma clock_sleep: "clock (sleep p ms w) = clock w + ms + int (timer_lag p w)"
  by (simp add: sleep_def emit_def)

lemma clock_call: "clock (call p rq w) = clock w + int (latency p w rq)"
  by (simp add: call_def emit_def)

lemma clock_emit: "clock (emit e w) = clock w"
  by (simp add: emit_def)

lemma clock_attempt:
  assumes "\<forall>w. clock w \<le> clock (snd (retryFunc w))"
  shows "clock w + 1000 \<le> clock (attempt_then_backoff p retryFunc w)"
  using assms [rule_format, of w] by (simp add: attempt_then_backoff_def clock_sleep)

lemma clock_attempts_mono:
  assumes "\<forall>w. clock w \<le> clock (snd (retryFunc w))"
  shows "clock ((attempt_then_backoff p retryFunc ^^ k) w) + 1000 * int n
           \<le> clock ((attempt_then_backoff p retryFunc ^^ (k + n)) w)"
proof (induction n)
  case 0
  then show ?case by simp
next
  case (Suc n)
  have "clock ((attempt_then_backoff p retryFunc ^^ (k + n)) w) + 1000
          \<le> clock ((attempt_then_backoff p retryFunc ^^ (k + Suc n)) w)"
    using clock_attempt [OF assms, where w = "(attempt_then_backoff p retryFunc ^^ (k + n)) w" and p = p] by simp
  with Suc show ?case by simp
qed

lemma clock_attempts_le:
  assumes "\<forall>w. clock w \<le> clock (snd (retryFunc w))" and "k \<le> n"
  shows "clock ((attempt_then_backoff p retryFunc ^^ k) w)
           \<le> clock ((attempt_then_backoff p retryFunc ^^ n) w)"
  using clock_attempts_mono [OF assms(1), where p = p and k = k and w = w and n = "n - k"] assms(2) by simp


subsection \<open>\<open>Array.from(new Set(\<dots>))\<close>\<close>

lemma foldl_insert_set:
  "set (foldl (\<lambda>acc x. if x \<in> set acc then acc else acc @ [x]) acc xs) = set acc \<union> set xs"
  by (induction xs arbitrary: acc) auto

lemma foldl_insert_distinct:
  "distinct acc \<Longrightarrow> distinct (foldl (\<lambda>acc x. if x \<in> set acc then acc else acc @ [x]) acc xs)"
  by (induction xs arbitrary: acc) auto

lemma foldl_insert_nths:
  "foldl (\<lambda>acc x. if x \<in> set acc then acc else acc @ [x]) acc xs =
     acc @ nths xs {i. xs ! i \<notin> set acc \<union> set (take i xs)}"
proof (induction xs arbitrary: acc)
  case Nil
  then show ?case by simp
next
  case (Cons x xs)
  have eq: "{j. Suc j \<in> {i. (x # xs) ! i \<notin> set acc \<union> set (take i (x # xs))}} =
            {j. xs ! j \<notin> set (if x \<in> set acc then acc else acc @ [x]) \<union> set (take j xs)}"
    by auto
  have "foldl (\<lambda>acc x. if x \<in> set acc then acc else acc @ [x]) acc (x # xs) =
        (if x \<in> set acc then acc else acc @ [x]) @
        nths xs {j. Suc j \<in> {i. (x # xs) ! i \<notin> set acc \<union> set (take i (x # xs))}}"
    unfolding eq by (simp add: Cons.IH)
  then show ?case
    by (simp add: nths_Cons)
qed

lemma Array_from_Set_first_occurrences:
  "Array_from_Set xs = nths xs {i. xs ! i \<notin> set (take i xs)}"
  by (simp add: Array_from_Set_def foldl_insert_nths)

lemma Array_from_Set_distinct: "distinct (Array_from_Set xs)"
  by (simp add: Array_from_Set_def foldl_insert_distinct)

lemma Array_from_Set_set: "set (Array_from_Set xs) = set xs"
  by (simp add: Array_from_Set_def foldl_insert_set)

text \<open>
  C8.  When the job listing of the run (requested with the filter \<open>latest\<close>) answers with
  status 200, \<open>getWorkflowRunJobSteps\<close> returns the step names of all jobs, flattened in
  the order of the jobs, restricted to the positions at which a name occurs for the first
  time: the result has no duplicates, holds every name, and keeps the order of insertion.
  A job without steps contributes nothing.
\<close>

theorem getWorkflowRunJobSteps_first_occurrences:
  assumes "listJobsForWorkflowRun p w (ListJobsForWorkflowRun (owner cfg) (repo cfg) runId ''latest'') =
             Inr response"
    and "jobs_status response = 200"
  shows "\<exists>steps names.
           getWorkflowRunJobSteps p runId cfg w =
             (Inr steps, call p (ListJobsForWorkflowRun (owner cfg) (repo cfg) runId ''latest'') w) \<and>
           names = concat (map job_step_names (jobs response)) \<and>
           steps = nths names {i. names ! i \<notin> set (take i names)} \<and>
           distinct steps \<and> set steps = set names"
  using assms
  by (simp add: getWorkflowRunJobSteps_def listJobs_params_def allSteps_def
      Array_from_Set_distinct Array_from_Set_set Array_from_Set_first_occurrences [symmetric])

theorem getWorkflowRunJobSteps_first_occurrences_witness:
  "\<exists>steps. fst (getWorkflowRunJobSteps (scenario [102] demo_jobs) 102 demo_config world0) = Inr steps \<and>
      distinct steps \<and> set steps = {''checkout'', ''build'', ''echo M1 done''}"
proof -
  have r: "listJobsForWorkflowRun (scenario [102] demo_jobs) world0
             (ListJobsForWorkflowRun (owner demo_config) (repo demo_config) 102 ''latest'') =
           Inr (JobsResponse 200
             [Job 1 (Some [Step ''checkout'', Step ''build'']), Job 2 None,
              Job 3 (Some [Step ''build'', Step ''checkout'', Step ''echo M1 done''])])"
    by (simp add: scenario_def demo_jobs_def)
  from getWorkflowRunJobSteps_first_occurrences [OF r]
  show ?thesis
    by (auto simp: job_step_names_def)
qed

subsection \<open>The request of \<open>getWorkflowRunIds\<close>\<close>

lemma getBranchName_Some: "getBranchName r = Some b \<longleftrightarrow> r = ''refs/heads/'' @ b"
  unfolding getBranchName_def
  by (metis append_eq_conv_conj not_Some_eq option.inject prefixE prefixI)

lemma snd_getWorkflowRunIds:
  "snd (getWorkflowRunIds p wid cfg w) = call p (listWorkflowRuns_params wid cfg) w"
  by (auto simp add: getWorkflowRunIds_def Let_def split: sum.splits)

text \<open>
  C6.  For a ref \<open>refs/heads/<branch>\<close> with a non-empty branch, \<open>getWorkflowRunIds\<close>
  asks for the runs of that branch, five per page.  For every other ref (a tag ref, a bare
  name, and also \<open>refs/heads/\<close> with nothing after it) no usable branch is derived and it
  asks for the runs without a branch, ten per page.  An answer whose status is not 200
  makes the call fail with an error that names the status.
\<close>

theorem getWorkflowRunIds_query:
  "(branch \<noteq> [] \<and> ref cfg = ''refs/heads/'' @ branch \<longrightarrow>
      snd (getWorkflowRunIds p workflowId cfg w) =
        call p (ListWorkflowRuns (owner cfg) (repo cfg) workflowId (Some branch) 5) w) \<and>
   ((\<forall>b. b \<noteq> [] \<longrightarrow> ref cfg \<noteq> ''refs/heads/'' @ b) \<longrightarrow>
      getBranchName (ref cfg) \<in> {None, Some []} \<and>
      snd (getWorkflowRunIds p workflowId cfg w) =
        call p (ListWorkflowRuns (owner cfg) (repo cfg) workflowId None 10) w) \<and>
   (listWorkflowRuns p w (listWorkflowRuns_params workflowId cfg) = Inr response \<and>
    runs_status response \<noteq> 200 \<longrightarrow>
      fst (getWorkflowRunIds p workflowId cfg w) =
        Inl (Error (''Failed to get Workflow runs, expected 200 but received '' @
                    string_of_int (runs_status response))))"
proof (intro conjI impI)
  assume a: "branch \<noteq> [] \<and> ref cfg = ''refs/heads/'' @ branch"
  then have "getBranchName (ref cfg) = Some branch"
    unfolding getBranchName_Some by blast
  with a show "snd (getWorkflowRunIds p workflowId cfg w) =
        call p (ListWorkflowRuns (owner cfg) (repo cfg) workflowId (Some branch) 5) w"
    by (simp add: snd_getWorkflowRunIds listWorkflowRuns_params_def)
next
  assume a: "\<forall>b. b \<noteq> [] \<longrightarrow> ref cfg \<noteq> ''refs/heads/'' @ b"
  show "getBranchName (ref cfg) \<in> {None, Some []}"
  proof (cases "getBranchName (ref cfg)")
    case None
    then show ?thesis by simp
  next
    case (Some b)
    then have "ref cfg = ''refs/heads/'' @ b" unfolding getBranchName_Some .
    with a have "b = []" by blast
    with Some show ?thesis by simp
  qed
  then show "snd (getWorkflowRunIds p workflowId cfg w) =
        call p (ListWorkflowRuns (owner cfg) (repo cfg) workflowId None 10) w"
    by (auto simp: snd_getWorkflowRunIds listWorkflowRuns_params_def)
next
  assume "listWorkflowRuns p w (listWorkflowRuns_params workflowId cfg) = Inr response \<and>
    runs_status response \<noteq> 200"
  then show "fst (getWorkflowRunIds p workflowId cfg w) =
        Inl (Error (''Failed to get Workflow runs, expected 200 but received '' @
                    string_of_int (runs_status response)))"
    by (simp add: getWorkflowRunIds_def)
qed

theorem getWorkflowRunIds_query_witness:
  "snd (getWorkflowRunIds (scenario [101, 102] demo_jobs) 7 demo_config world0) =
     \<lparr>clock = 0, trace = [(0, Request (ListWorkflowRuns ''microtema'' (Some ''workflow-dispatch'') 7 (Some ''main'') 5))]\<rparr> \<and>
   snd (getWorkflowRunIds (scenario [101, 102] demo_jobs) 7 (demo_config\<lparr>ref := ''refs/tags/v1.0''\<rparr>) world0) =
     \<lparr>clock = 0, trace = [(0, Request (ListWorkflowRuns ''microtema'' (Some ''workflow-dispatch'') 7 None 10))]\<rparr> \<and>
   fst (getWorkflowRunIds ((scenario [] demo_jobs)\<lparr>listWorkflowRuns := (\<lambda>w rq. Inr (RunsResponse 304 []))\<rparr>)
          7 demo_config world0) =
     Inl (Error ''Failed to get Workflow runs, expected 200 but received 304'')"
proof -
  have tag: "\<forall>b. b \<noteq> [] \<longrightarrow> ref (demo_config\<lparr>ref := ''refs/tags/v1.0''\<rparr>) \<noteq> ''refs/heads/'' @ b"
    by simp
  show ?thesis
    using getWorkflowRunIds_query [of "''main''" demo_config "scenario [101, 102] demo_jobs" 7 world0]
      getWorkflowRunIds_query [of _ "demo_config\<lparr>ref := ''refs/tags/v1.0''\<rparr>"
        "scenario [101, 102] demo_jobs" 7 world0] tag
      getWorkflowRunIds_query [of _ demo_config
        "(scenario [] demo_jobs)\<lparr>listWorkflowRuns := (\<lambda>w rq. Inr (RunsResponse 304 []))\<rparr>" 7 world0
        "RunsResponse 304 []"]
    by (simp add: demo_config_def scenario_def world0_def call_def emit_def string_of_int_def digit_char_def)
qed

subsection \<open>The marker test\<close>

lemma parse_atoms_literal:
  "\<forall>c\<in>set m. \<not> SyntaxCharacter c \<Longrightarrow> parse_atoms m = Some (map Literal m)"
proof (induction m)
  case Nil
  then show ?case by simp
next
  case (Cons c cs)
  then have "\<not> SyntaxCharacter c" by simp
  then have "c \<noteq> CHR 0x5C" "c \<noteq> CHR ''.''"
    by (auto simp: SyntaxCharacter_def)
  with Cons show ?case by simp
qed

lemma match_here_literal: "match_here (map Literal m) s \<longleftrightarrow> prefix m s"
  by (induction "map Literal m" s arbitrary: m rule: match_here.induct) auto

lemma search_literal: "search (map Literal m) s \<longleftrightarrow> sublist m s"
  by (induction s) (auto simp: match_here_literal sublist_Cons_right)

subsection \<open>\<open>retryOrDie\<close>\<close>

lemma retryOrDie_loop_returns:
  assumes "\<forall>k<N. fst (retryFunc ((attempt_then_backoff p retryFunc ^^ k) w)) = Inr []"
    and "fst (retryFunc ((attempt_then_backoff p retryFunc ^^ N) w)) = Inr response"
    and "response \<noteq> []"
    and "elapsedTime < timeoutMs"
    and "\<forall>k<N. clock ((attempt_then_backoff p retryFunc ^^ k) w) - startTime < timeoutMs"
  shows "retryOrDie_loop p retryFunc timeoutMs startTime elapsedTime w =
           Some (Inr response, snd (retryFunc ((attempt_then_backoff p retryFunc ^^ N) w)))"
  using assms
proof (induction N arbitrary: w elapsedTime)
  case 0
  then show ?case
    by (subst retryOrDie_loop.simps) (auto split: prod.splits sum.splits)
next
  case (Suc N)
  let ?w' = "attempt_then_backoff p retryFunc w"
  have iter: "(attempt_then_backoff p retryFunc ^^ k) ?w' = (attempt_then_backoff p retryFunc ^^ Suc k) w" for k
    by (simp add: funpow_swap1)
  have e0: "fst (retryFunc w) = Inr []"
    using Suc.prems(1) [rule_format, of 0] by simp
  have c0: "clock w - startTime < timeoutMs"
    using Suc.prems(5) [rule_format, of 0] by simp
  have "retryOrDie_loop p retryFunc timeoutMs startTime (clock w - startTime) ?w' =
          Some (Inr response, snd (retryFunc ((attempt_then_backoff p retryFunc ^^ N) ?w')))"
  proof (rule Suc.IH)
    show "\<forall>k<N. fst (retryFunc ((attempt_then_backoff p retryFunc ^^ k) ?w')) = Inr []"
      using Suc.prems(1) by (auto simp: iter simp del: funpow.simps)
    show "fst (retryFunc ((attempt_then_backoff p retryFunc ^^ N) ?w')) = Inr response"
      using Suc.prems(2) by (simp add: iter del: funpow.simps)
    show "response \<noteq> []" by fact
    show "clock w - startTime < timeoutMs" by fact
    show "\<forall>k<N. clock ((attempt_then_backoff p retryFunc ^^ k) ?w') - startTime < timeoutMs"
      using Suc.prems(5) by (auto simp: iter simp del: funpow.simps)
  qed
  moreover have "retryOrDie_loop p retryFunc timeoutMs startTime elapsedTime w =
      retryOrDie_loop p retryFunc timeoutMs startTime (clock w - startTime) ?w'"
    using e0 Suc.prems(4)
    by (subst retryOrDie_loop.simps) (auto simp: attempt_then_backoff_def split: prod.splits sum.splits)
  ultimately show ?case
    by (simp add: iter del: funpow.simps)
qed

lemma retryOrDie_loop_times_out:
  assumes mono: "\<forall>w. clock w \<le> clock (snd (retryFunc w))"
    and empty: "\<forall>w. fst (retryFunc w) = Inr []"
    and inv: "elapsedTime \<le> clock w - startTime"
  shows "\<exists>n. retryOrDie_loop p retryFunc timeoutMs startTime elapsedTime w =
             Some (Inl (Error ''Timed out while attempting to fetch data''),
                   (attempt_then_backoff p retryFunc ^^ n) w) \<and>
           (if n = 0 then timeoutMs \<le> elapsedTime
            else elapsedTime < timeoutMs \<and>
                 timeoutMs \<le> clock ((attempt_then_backoff p retryFunc ^^ (n - 1)) w) - startTime \<and>
                 (\<forall>k. Suc k < n \<longrightarrow>
                    clock ((attempt_then_backoff p retryFunc ^^ k) w) - startTime < timeoutMs))"
  using inv
proof (induction "nat (timeoutMs - elapsedTime) + nat (timeoutMs - (clock w - startTime))"
    arbitrary: elapsedTime w rule: less_induct)
  case less
  show ?case
  proof (cases "elapsedTime < timeoutMs")
    case False
    then have "retryOrDie_loop p retryFunc timeoutMs startTime elapsedTime w =
        Some (Inl (Error ''Timed out while attempting to fetch data''), w)"
      by (subst retryOrDie_loop.simps) simp
    with False show ?thesis
      by (intro exI [of _ 0]) simp
  next
    case True
    let ?w' = "attempt_then_backoff p retryFunc w"
    have iter: "(attempt_then_backoff p retryFunc ^^ k) ?w' = (attempt_then_backoff p retryFunc ^^ Suc k) w" for k
      by (simp add: funpow_swap1)
    have step: "retryOrDie_loop p retryFunc timeoutMs startTime elapsedTime w =
        retryOrDie_loop p retryFunc timeoutMs startTime (clock w - startTime) ?w'"
      using True empty [rule_format, of w]
      by (subst retryOrDie_loop.simps) (auto simp: attempt_then_backoff_def split: prod.splits sum.splits)
    have adv: "clock w + 1000 \<le> clock ?w'"
      by (rule clock_attempt [OF mono])
    have "\<exists>n. retryOrDie_loop p retryFunc timeoutMs startTime (clock w - startTime) ?w' =
             Some (Inl (Error ''Timed out while attempting to fetch data''),
                   (attempt_then_backoff p retryFunc ^^ n) ?w') \<and>
           (if n = 0 then timeoutMs \<le> clock w - startTime
            else clock w - startTime < timeoutMs \<and>
                 timeoutMs \<le> clock ((attempt_then_backoff p retryFunc ^^ (n - 1)) ?w') - startTime \<and>
                 (\<forall>k. Suc k < n \<longrightarrow>
                    clock ((attempt_then_backoff p retryFunc ^^ k) ?w') - startTime < timeoutMs))"
    proof (rule less.hyps)
      show "nat (timeoutMs - (clock w - startTime)) + nat (timeoutMs - (clock ?w' - startTime))
            < nat (timeoutMs - elapsedTime) + nat (timeoutMs - (clock w - startTime))"
        using True less.prems adv by linarith
      show "clock w - startTime \<le> clock ?w' - startTime"
        using adv by simp
    qed
    then obtain n where n: "retryOrDie_loop p retryFunc timeoutMs startTime (clock w - startTime) ?w' =
             Some (Inl (Error ''Timed out while attempting to fetch data''),
                   (attempt_then_backoff p retryFunc ^^ n) ?w')"
      and nn: "if n = 0 then timeoutMs \<le> clock w - startTime
            else clock w - startTime < timeoutMs \<and>
                 timeoutMs \<le> clock ((attempt_then_backoff p retryFunc ^^ (n - 1)) ?w') - startTime \<and>
                 (\<forall>k. Suc k < n \<longrightarrow>
                    clock ((attempt_then_backoff p retryFunc ^^ k) ?w') - startTime < timeoutMs)"
      by blast
    have "\<forall>k. Suc k < Suc n \<longrightarrow> clock ((attempt_then_backoff p retryFunc ^^ k) w) - startTime < timeoutMs"
    proof (intro allI impI)
      fix k assume k: "Suc k < Suc n"
      then have n0: "n \<noteq> 0" by simp
      show "clock ((attempt_then_backoff p retryFunc ^^ k) w) - startTime < timeoutMs"
      proof (cases k)
        case 0
        with nn n0 show ?thesis by simp
      next
        case (Suc j)
        with k have "Suc j < n" by simp
        with nn n0 have "clock ((attempt_then_backoff p retryFunc ^^ j) ?w') - startTime < timeoutMs"
          by simp
        then show ?thesis unfolding Suc iter .
      qed
    qed
    moreover have "timeoutMs \<le> clock ((attempt_then_backoff p retryFunc ^^ (Suc n - 1)) w) - startTime"
    proof (cases n)
      case 0
      with nn show ?thesis by simp
    next
      case (Suc m)
      with nn have "timeoutMs \<le> clock ((attempt_then_backoff p retryFunc ^^ m) ?w') - startTime"
        by simp
      then show ?thesis unfolding Suc iter by simp
    qed
    ultimately show ?thesis
      using step n True
      by (intro exI [of _ "Suc n"]) (simp add: iter del: funpow.simps)
  qed
qed

text \<open>
  C3, as amended.  Let the producer never turn the clock back.  If it answers with an empty sequence in
  the first \<open>N\<close> rounds and with a non-empty one in the next, and the time that has passed
  when that round starts (the \<open>N\<close> backoffs of one second and whatever the producer took)
  is below \<open>timeoutMs\<close>, then \<open>retryOrDie\<close> returns that sequence.  When the producer
  takes no time and the timers are exact, the time that has passed is exactly \<open>N\<close> times
  1000 milliseconds.  If the producer always answers with an empty sequence, \<open>retryOrDie\<close>
  ends with the timeout error after some number \<open>n\<close> of rounds, each followed by the
  backoff of one second; by then \<open>timeoutMs\<close> has passed (more than that when it is
  positive), and every round but the last started before \<open>timeoutMs\<close> had passed.
\<close>

theorem retryOrDie_eventually:
  assumes "\<forall>w. clock w \<le> clock (snd (retryFunc w))"
  shows
   "((\<forall>k<N. fst (retryFunc ((attempt_then_backoff p retryFunc ^^ k) w)) = Inr []) \<and>
     fst (retryFunc ((attempt_then_backoff p retryFunc ^^ N) w)) = Inr response \<and> response \<noteq> [] \<and>
     clock ((attempt_then_backoff p retryFunc ^^ N) w) - clock w < timeoutMs \<longrightarrow>
       retryOrDie p retryFunc timeoutMs w =
         Some (Inr response, snd (retryFunc ((attempt_then_backoff p retryFunc ^^ N) w)))) \<and>
    ((\<forall>w. clock (snd (retryFunc w)) = clock w) \<and> (\<forall>w. timer_lag p w = 0) \<longrightarrow>
       clock ((attempt_then_backoff p retryFunc ^^ N) w) - clock w = int N * 1000) \<and>
    ((\<forall>w. fst (retryFunc w) = Inr []) \<longrightarrow>
       (\<exists>n. retryOrDie p retryFunc timeoutMs w =
               Some (Inl (Error ''Timed out while attempting to fetch data''),
                     (attempt_then_backoff p retryFunc ^^ n) w) \<and>
             timeoutMs \<le> clock ((attempt_then_backoff p retryFunc ^^ n) w) - clock w \<and>
             (0 < timeoutMs \<longrightarrow> timeoutMs < clock ((attempt_then_backoff p retryFunc ^^ n) w) - clock w) \<and>
             (\<forall>k. Suc k < n \<longrightarrow>
                clock ((attempt_then_backoff p retryFunc ^^ k) w) - clock w < timeoutMs)))"
proof (intro conjI impI)
  assume a: "(\<forall>k<N. fst (retryFunc ((attempt_then_backoff p retryFunc ^^ k) w)) = Inr []) \<and>
     fst (retryFunc ((attempt_then_backoff p retryFunc ^^ N) w)) = Inr response \<and> response \<noteq> [] \<and>
     clock ((attempt_then_backoff p retryFunc ^^ N) w) - clock w < timeoutMs"
  have le: "clock ((attempt_then_backoff p retryFunc ^^ k) w) \<le> clock ((attempt_then_backoff p retryFunc ^^ N) w)"
    if "k \<le> N" for k
    using clock_attempts_le [OF assms that] .
  have "0 < timeoutMs"
    using a le [of 0] by simp
  moreover have "\<forall>k<N. clock ((attempt_then_backoff p retryFunc ^^ k) w) - clock w < timeoutMs"
  proof (intro allI impI)
    fix k assume "k < N"
    then have "clock ((attempt_then_backoff p retryFunc ^^ k) w) \<le> clock ((attempt_then_backoff p retryFunc ^^ N) w)"
      using le [of k] by simp
    with a show "clock ((attempt_then_backoff p retryFunc ^^ k) w) - clock w < timeoutMs" by linarith
  qed
  ultimately show "retryOrDie p retryFunc timeoutMs w =
         Some (Inr response, snd (retryFunc ((attempt_then_backoff p retryFunc ^^ N) w)))"
    unfolding retryOrDie_def using a
    by (intro retryOrDie_loop_returns) auto
next
  assume ideal: "(\<forall>w. clock (snd (retryFunc w)) = clock w) \<and> (\<forall>w. timer_lag p w = 0)"
  have "clock ((attempt_then_backoff p retryFunc ^^ k) w) = clock w + int k * 1000" for k
    by (induction k) (simp_all add: attempt_then_backoff_def clock_sleep ideal)
  then show "clock ((attempt_then_backoff p retryFunc ^^ N) w) - clock w = int N * 1000"
    by simp
next
  assume empty: "\<forall>w. fst (retryFunc w) = Inr []"
  from retryOrDie_loop_times_out [OF assms empty, where elapsedTime = 0 and w = w and startTime = "clock w"
      and p = p and timeoutMs = timeoutMs]
  obtain n where n: "retryOrDie_loop p retryFunc timeoutMs (clock w) 0 w =
             Some (Inl (Error ''Timed out while attempting to fetch data''),
                   (attempt_then_backoff p retryFunc ^^ n) w)"
    and nn: "if n = 0 then timeoutMs \<le> 0
            else 0 < timeoutMs \<and>
                 timeoutMs \<le> clock ((attempt_then_backoff p retryFunc ^^ (n - 1)) w) - clock w \<and>
                 (\<forall>k. Suc k < n \<longrightarrow>
                    clock ((attempt_then_backoff p retryFunc ^^ k) w) - clock w < timeoutMs)"
    by auto
  have late: "timeoutMs \<le> clock ((attempt_then_backoff p retryFunc ^^ n) w) - clock w \<and>
      (0 < timeoutMs \<longrightarrow> timeoutMs < clock ((attempt_then_backoff p retryFunc ^^ n) w) - clock w)"
  proof (cases n)
    case 0
    with nn show ?thesis by simp
  next
    case (Suc m)
    have "clock ((attempt_then_backoff p retryFunc ^^ m) w) + 1000 * int 1
             \<le> clock ((attempt_then_backoff p retryFunc ^^ (m + 1)) w)"
      by (rule clock_attempts_mono [OF assms])
    with nn Suc show ?thesis by simp
  qed
  show "\<exists>n. retryOrDie p retryFunc timeoutMs w =
               Some (Inl (Error ''Timed out while attempting to fetch data''),
                     (attempt_then_backoff p retryFunc ^^ n) w) \<and>
             timeoutMs \<le> clock ((attempt_then_backoff p retryFunc ^^ n) w) - clock w \<and>
             (0 < timeoutMs \<longrightarrow> timeoutMs < clock ((attempt_then_backoff p retryFunc ^^ n) w) - clock w) \<and>
             (\<forall>k. Suc k < n \<longrightarrow>
                clock ((attempt_then_backoff p retryFunc ^^ k) w) - clock w < timeoutMs)"
  proof (intro exI [of _ n] conjI)
    show "retryOrDie p retryFunc timeoutMs w =
        Some (Inl (Error ''Timed out while attempting to fetch data''),
              (attempt_then_backoff p retryFunc ^^ n) w)"
      using n by (simp add: retryOrDie_def)
    show "timeoutMs \<le> clock ((attempt_then_backoff p retryFunc ^^ n) w) - clock w"
      using late by simp
    show "0 < timeoutMs \<longrightarrow> timeoutMs < clock ((attempt_then_backoff p retryFunc ^^ n) w) - clock w"
      using late by simp
    show "\<forall>k. Suc k < n \<longrightarrow> clock ((attempt_then_backoff p retryFunc ^^ k) w) - clock w < timeoutMs"
      using nn by (cases n) auto
  qed
qed

theorem retryOrDie_eventually_witness:
  "(2::int) * 1000 < 2500 \<and>
   retryOrDie (scenario [] demo_jobs) (ready_at 2000) 2500 world0 =
     Some (Inr [101], \<lparr>clock = 2000, trace = [(0, Sleep 1000), (1000, Sleep 1000)]\<rparr>) \<and>
   (\<exists>n. retryOrDie (scenario [] demo_jobs) never_ready 2500 world0 =
           Some (Inl (Error ''Timed out while attempting to fetch data''),
                 (attempt_then_backoff (scenario [] demo_jobs) never_ready ^^ n) world0) \<and>
         2500 < clock ((attempt_then_backoff (scenario [] demo_jobs) never_ready ^^ n) world0) - clock world0)"
proof -
  let ?p = "scenario [] demo_jobs"
  have m1: "\<forall>w. clock w \<le> clock (snd (ready_at 2000 w))"
    by (simp add: ready_at_def)
  have m2: "\<forall>w. clock w \<le> clock (snd (never_ready w))"
    by (simp add: never_ready_def)
  have w1: "attempt_then_backoff ?p (ready_at 2000) world0 = \<lparr>clock = 1000, trace = [(0, Sleep 1000)]\<rparr>"
    by (simp add: attempt_then_backoff_def ready_at_def sleep_def emit_def scenario_def world0_def)
  have w2: "(attempt_then_backoff ?p (ready_at 2000) ^^ 2) world0 =
              \<lparr>clock = 2000, trace = [(0, Sleep 1000), (1000, Sleep 1000)]\<rparr>"
    by (simp add: numeral_2_eq_2 w1) (simp add: attempt_then_backoff_def ready_at_def sleep_def emit_def scenario_def)
  have e: "\<forall>k<2. fst (ready_at 2000 ((attempt_then_backoff ?p (ready_at 2000) ^^ k) world0)) = Inr []"
  proof (intro allI impI)
    fix k :: nat assume "k < 2"
    then have "k = 0 \<or> k = 1" by auto
    then show "fst (ready_at 2000 ((attempt_then_backoff ?p (ready_at 2000) ^^ k) world0)) = Inr []"
      by (auto simp: w1) (simp_all add: ready_at_def world0_def)
  qed
  have r: "fst (ready_at 2000 ((attempt_then_backoff ?p (ready_at 2000) ^^ 2) world0)) = Inr [101]"
    by (simp add: w2 ready_at_def)
  have t: "clock ((attempt_then_backoff ?p (ready_at 2000) ^^ 2) world0) - clock world0 < 2500"
    using w2 by (simp add: world0_def)
  have ne: "\<forall>w. fst (never_ready w) = Inr []"
    by (simp add: never_ready_def)
  have "retryOrDie ?p (ready_at 2000) 2500 world0 =
      Some (Inr [101], snd (ready_at 2000 ((attempt_then_backoff ?p (ready_at 2000) ^^ 2) world0)))"
    using retryOrDie_eventually [OF m1, where N = 2 and p = ?p and w = world0 and response = "[101]"
        and timeoutMs = 2500] e r t
    by blast
  then have A: "retryOrDie ?p (ready_at 2000) 2500 world0 =
      Some (Inr [101], \<lparr>clock = 2000, trace = [(0, Sleep 1000), (1000, Sleep 1000)]\<rparr>)"
    by (simp add: w2 ready_at_def)
  have B: "\<exists>n. retryOrDie ?p never_ready 2500 world0 =
           Some (Inl (Error ''Timed out while attempting to fetch data''),
                 (attempt_then_backoff ?p never_ready ^^ n) world0) \<and>
         2500 < clock ((attempt_then_backoff ?p never_ready ^^ n) world0) - clock world0"
  proof -
    from retryOrDie_eventually [OF m2, where p = ?p and w = world0 and timeoutMs = 2500
        and N = 0 and response = "[]"]
    have "(\<forall>w. fst (never_ready w) = Inr []) \<longrightarrow>
      (\<exists>n. retryOrDie ?p never_ready 2500 world0 =
           Some (Inl (Error ''Timed out while attempting to fetch data''),
                 (attempt_then_backoff ?p never_ready ^^ n) world0) \<and>
         2500 \<le> clock ((attempt_then_backoff ?p never_ready ^^ n) world0) - clock world0 \<and>
         ((0::int) < 2500 \<longrightarrow>
            2500 < clock ((attempt_then_backoff ?p never_ready ^^ n) world0) - clock world0) \<and>
         (\<forall>k. Suc k < n \<longrightarrow>
            clock ((attempt_then_backoff ?p never_ready ^^ k) world0) - clock world0 < 2500))"
      by (elim conjE)
    with ne show ?thesis by auto
  qed
  from A B show ?thesis by simp
qed

text \<open>
  C3, as stated, fails.  The producer takes three seconds to answer; it answers with an
  empty sequence twice and would answer with the run 101 the third time.  Two backoffs of
  one second are less than the timeout of 2500 milliseconds, yet \<open>retryOrDie\<close> ends
  with its timeout error after 8 seconds and never asks the producer a third time: the
  guard of the loop reads the time elapsed at the start of the second round, 4 seconds.
\<close>

theorem retryOrDie_slow_producer_counterexample:
  "fst (slow_ready_at 5000 world0) = Inr [] \<and>
   fst (slow_ready_at 5000
          (attempt_then_backoff (scenario [] demo_jobs) (slow_ready_at 5000) world0)) = Inr [] \<and>
   fst (slow_ready_at 5000
          ((attempt_then_backoff (scenario [] demo_jobs) (slow_ready_at 5000) ^^ 2) world0)) = Inr [101] \<and>
   (2::int) * 1000 < 2500 \<and>
   retryOrDie (scenario [] demo_jobs) (slow_ready_at 5000) 2500 world0 =
     Some (Inl (Error ''Timed out while attempting to fetch data''),
           \<lparr>clock = 8000, trace = [(3000, Sleep 1000), (7000, Sleep 1000)]\<rparr>)"
  by code_simp

text \<open>
  C10.  With a timeout that is not positive, \<open>retryOrDie\<close> throws its timeout error in
  the world it was called in, whatever the producer is: the producer is not invoked.  With
  a positive timeout the first thing that happens is the invocation of the producer in that
  world, and the outcome is read off its result: its error, its non-empty answer, or the
  next round after the backoff.
\<close>

theorem retryOrDie_guard:
  "(timeoutMs \<le> 0 \<longrightarrow>
      retryOrDie p retryFunc timeoutMs w =
        Some (Inl (Error ''Timed out while attempting to fetch data''), w)) \<and>
   (0 < timeoutMs \<longrightarrow>
      retryOrDie p retryFunc timeoutMs w =
        (case retryFunc w of
           (Inl e, w1) \<Rightarrow> Some (Inl e, w1)
         | (Inr response, w1) \<Rightarrow>
             if response \<noteq> [] then Some (Inr response, w1)
             else retryOrDie_loop p retryFunc timeoutMs (clock w) 0 (sleep p 1000 w1)))"
  by (simp add: retryOrDie_def retryOrDie_loop.simps [of _ _ _ _ _ w] split: prod.splits sum.splits)

theorem retryOrDie_guard_witness:
  "retryOrDie (scenario [] demo_jobs) (\<lambda>w. (Inl (Error ''Bad credentials'') :: exn + int list, w)) 0 world0 =
     Some (Inl (Error ''Timed out while attempting to fetch data''), world0) \<and>
   retryOrDie (scenario [] demo_jobs) (\<lambda>w. (Inl (Error ''Bad credentials'') :: exn + int list, w)) 1 world0 =
     Some (Inl (Error ''Bad credentials''), world0)"
  using retryOrDie_guard [of 0 "scenario [] demo_jobs" "\<lambda>w. (Inl (Error ''Bad credentials'') :: exn + int list, w)" world0]
    retryOrDie_guard [of 1 "scenario [] demo_jobs" "\<lambda>w. (Inl (Error ''Bad credentials'') :: exn + int list, w)" world0]
  by simp

subsection \<open>Traces\<close>

lemma trace_emit: "trace (emit e w) = trace w @ [(clock w, e)]"
  by (simp add: emit_def)

lemma trace_call: "trace (call p rq w) = trace w @ [(clock w, Request rq)]"
  by (simp add: call_def emit_def)

lemma trace_sleep: "trace (sleep p ms w) = trace w @ [(clock w, Sleep ms)]"
  by (simp add: sleep_def emit_def)

lemma snd_getWorkflowRunJobSteps:
  "snd (getWorkflowRunJobSteps p runId cfg w) = call p (listJobs_params runId cfg) w"
  by (auto simp add: getWorkflowRunJobSteps_def Let_def split: sum.splits)

text \<open>The world after the job listings of the runs \<open>ids\<close> have been awaited, one after the other.\<close>

lemma inspect_runs_passed_over:
  assumes "\<forall>i\<in>set xs. \<forall>w. passed_over p cfg t i w"
  shows "inspect_runs p cfg t (xs @ rest) w =
           inspect_runs p cfg t rest (fold (\<lambda>i. call p (listJobs_params i cfg)) xs w)"
  using assms
proof (induction xs arbitrary: w)
  case Nil
  then show ?case by simp
next
  case (Cons x xs)
  have po: "passed_over p cfg t x w" using Cons.prems by simp
  obtain r w1 where g: "getWorkflowRunJobSteps p x cfg w = (r, w1)"
    by (cases "getWorkflowRunJobSteps p x cfg w")
  then have w1: "w1 = call p (listJobs_params x cfg) w"
    using snd_getWorkflowRunJobSteps [of p x cfg w] by simp
  have "inspect_runs p cfg t (x # xs @ rest) w = inspect_runs p cfg t (xs @ rest) w1"
    using po g by (cases r) (auto simp: passed_over_def)
  also have "\<dots> = inspect_runs p cfg t rest (fold (\<lambda>i. call p (listJobs_params i cfg)) xs w1)"
    using Cons.prems by (intro Cons.IH) simp
  finally show ?case by (simp add: w1)
qed

lemma trace_fold_call:
  "\<exists>new. trace (fold (\<lambda>i. call p (f i)) xs w) = trace w @ new \<and>
         map snd new = map (\<lambda>i. Request (f i)) xs"
proof (induction xs arbitrary: w)
  case Nil
  then show ?case by simp
next
  case (Cons x xs)
  from Cons.IH [of "call p (f x) w"] obtain new where
    "trace (fold (\<lambda>i. call p (f i)) xs (call p (f x) w)) = trace (call p (f x) w) @ new"
    "map snd new = map (\<lambda>i. Request (f i)) xs" by blast
  then show ?case
    by (intro exI [of _ "(clock w, Request (f x)) # new"]) (simp add: trace_call)
qed


lemma inspect_runs_returns:
  assumes "\<forall>i\<in>set xs. \<forall>w. passed_over p cfg t i w"
    and "\<forall>w. has_marker p cfg t r w"
  shows "\<exists>w' new. inspect_runs p cfg t (xs @ r # ys) w = (Return, w') \<and>
           trace w' = trace w @ new \<and>
           map snd new = map (\<lambda>i. Request (listJobs_params i cfg)) (xs @ [r]) @ [SetOutput ''runId'' r]"
proof -
  let ?w1 = "fold (\<lambda>i. call p (listJobs_params i cfg)) xs w"
  obtain res w2 where g: "getWorkflowRunJobSteps p r cfg ?w1 = (res, w2)"
    by (cases "getWorkflowRunJobSteps p r cfg ?w1")
  then have w2: "w2 = call p (listJobs_params r cfg) ?w1"
    using snd_getWorkflowRunJobSteps [of p r cfg ?w1] by simp
  have "has_marker p cfg t r ?w1" using assms(2) by simp
  then have ret: "inspect_runs p cfg t (r # ys) ?w1 = (Return, emit (SetOutput ''runId'' r) w2)"
    using g by (cases res) (auto simp: has_marker_def)
  obtain new where new: "trace ?w1 = trace w @ new"
    "map snd new = map (\<lambda>i. Request (listJobs_params i cfg)) xs"
    using trace_fold_call [of p "\<lambda>i. listJobs_params i cfg" xs w] by blast
  show ?thesis
  proof (intro exI conjI)
    show "inspect_runs p cfg t (xs @ r # ys) w = (Return, emit (SetOutput ''runId'' r) w2)"
      using inspect_runs_passed_over [OF assms(1)] ret by simp
    show "trace (emit (SetOutput ''runId'' r) w2) =
            trace w @ (new @ [(clock ?w1, Request (listJobs_params r cfg)), (clock w2, SetOutput ''runId'' r)])"
      by (simp add: trace_emit w2 trace_call new)
    show "map snd (new @ [(clock ?w1, Request (listJobs_params r cfg)), (clock w2, SetOutput ''runId'' r)]) =
            map (\<lambda>i. Request (listJobs_params i cfg)) (xs @ [r]) @ [SetOutput ''runId'' r]"
      by (simp add: new)
  qed
qed



text \<open>What \<open>retryOrDie\<close> leaves in the trace.\<close>

lemma retryOrDie_loop_polling:
  assumes run: "retryOrDie_loop p retryFunc t s el w = Some y"
    and prod: "\<forall>w. \<exists>new. trace (snd (retryFunc w)) = trace w @ new \<and> list_all polling (map snd new) \<and>
                 clock w \<le> clock (snd (retryFunc w))"
  shows "\<exists>new. trace (snd y) = trace w @ new \<and> list_all polling (map snd new) \<and> clock w \<le> clock (snd y)"
proof -
  have "(\<forall>w. \<exists>new. trace (snd (retryFunc w)) = trace w @ new \<and> list_all polling (map snd new) \<and>
                 clock w \<le> clock (snd (retryFunc w))) \<longrightarrow>
        (\<exists>new. trace (snd y) = trace w @ new \<and> list_all polling (map snd new) \<and> clock w \<le> clock (snd y))"
  proof (rule retryOrDie_loop.raw_induct [where P = "\<lambda>p retryFunc t s el w y.
      (\<forall>w. \<exists>new. trace (snd (retryFunc w)) = trace w @ new \<and> list_all polling (map snd new) \<and>
                 clock w \<le> clock (snd (retryFunc w))) \<longrightarrow>
        (\<exists>new. trace (snd y) = trace w @ new \<and> list_all polling (map snd new) \<and> clock w \<le> clock (snd y))",
      OF _ run])
    fix loop :: "platform \<Rightarrow> (world \<Rightarrow> (exn + 'a list) \<times> world) \<Rightarrow> int \<Rightarrow> int \<Rightarrow> int \<Rightarrow> world
       \<Rightarrow> ((exn + 'a list) \<times> world) option"
      and p f t s el w y
    assume IH: "\<And>p f t s el w y. loop p f t s el w = Some y \<Longrightarrow>
        (\<forall>w. \<exists>new. trace (snd (f w)) = trace w @ new \<and> list_all polling (map snd new) \<and>
                 clock w \<le> clock (snd (f w))) \<longrightarrow>
        (\<exists>new. trace (snd y) = trace w @ new \<and> list_all polling (map snd new) \<and> clock w \<le> clock (snd y))"
      and body: "(if el < t then
        (case f w of
           (Inl e, w1) \<Rightarrow> Some (Inl e, w1)
         | (Inr response, w1) \<Rightarrow>
             if length response > 0 then Some (Inr response, w1)
             else loop p f t s (clock w - s) (sleep p 1000 w1))
      else Some (Inl (Error ''Timed out while attempting to fetch data''), w)) = Some y"
    show "(\<forall>w. \<exists>new. trace (snd (f w)) = trace w @ new \<and> list_all polling (map snd new) \<and>
                 clock w \<le> clock (snd (f w))) \<longrightarrow>
        (\<exists>new. trace (snd y) = trace w @ new \<and> list_all polling (map snd new) \<and> clock w \<le> clock (snd y))"
    proof
      assume A: "\<forall>w. \<exists>new. trace (snd (f w)) = trace w @ new \<and> list_all polling (map snd new) \<and>
                 clock w \<le> clock (snd (f w))"
      obtain res w1 where fw: "f w = (res, w1)" by (cases "f w")
      from A [rule_format, of w] fw obtain new1 where
        n1: "trace w1 = trace w @ new1" "list_all polling (map snd new1)" "clock w \<le> clock w1"
        by auto
      show "\<exists>new. trace (snd y) = trace w @ new \<and> list_all polling (map snd new) \<and> clock w \<le> clock (snd y)"
      proof (cases "el < t")
        case False
        with body have "y = (Inl (Error ''Timed out while attempting to fetch data''), w)" by simp
        then show ?thesis by simp
      next
        case True
        show ?thesis
        proof (cases "\<exists>response. res = Inr response \<and> response = []")
          case False
          then have "snd y = w1"
            using body True fw by (cases res) auto
          with n1 show ?thesis by auto
        next
          case True2: True
          then have "loop p f t s (clock w - s) (sleep p 1000 w1) = Some y"
            using body True fw by auto
          from IH [OF this] A obtain new2 where
            n2: "trace (snd y) = trace (sleep p 1000 w1) @ new2" "list_all polling (map snd new2)"
              "clock (sleep p 1000 w1) \<le> clock (snd y)"
            by blast
          show ?thesis
          proof (intro exI conjI)
            show "trace (snd y) = trace w @ (new1 @ (clock w1, Sleep 1000) # new2)"
              using n1 n2 by (simp add: trace_sleep)
            show "list_all polling (map snd (new1 @ (clock w1, Sleep 1000) # new2))"
              using n1 n2 by (simp add: polling_def)
            show "clock w \<le> clock (snd y)"
              using n1 n2 by (simp add: clock_sleep)
          qed
        qed
      qed
    qed
  qed
  with prod show ?thesis by blast
qed

lemma getWorkflowRunIds_polling:
  "\<forall>w. \<exists>new. trace (snd (getWorkflowRunIds p wid cfg w)) = trace w @ new \<and>
         list_all polling (map snd new) \<and> clock w \<le> clock (snd (getWorkflowRunIds p wid cfg w))"
  by (simp add: snd_getWorkflowRunIds trace_call clock_call polling_def)

lemma retryOrDie_polling:
  assumes "retryOrDie p (getWorkflowRunIds p wid cfg) t w = Some (r, w1)"
  shows "\<exists>new. trace w1 = trace w @ new \<and> list_all polling (map snd new) \<and> clock w \<le> clock w1"
  using retryOrDie_loop_polling [OF assms [unfolded retryOrDie_def] getWorkflowRunIds_polling] by simp

lemma observe_Nil [simp]: "outputs [] = []" "failures [] = []" "budgets [] = []"
  by (simp_all add: outputs_def failures_def budgets_def)

lemma observe_Cons [simp]:
  "outputs ((t, e) # tr) = (case e of SetOutput n v \<Rightarrow> [(n, v)] | _ \<Rightarrow> []) @ outputs tr"
  "failures ((t, e) # tr) = (case e of SetFailed m \<Rightarrow> [m] | _ \<Rightarrow> []) @ failures tr"
  "budgets ((t, e) # tr) = (case e of RetryOrDie b \<Rightarrow> [(t, b)] | _ \<Rightarrow> []) @ budgets tr"
  by (simp_all add: outputs_def failures_def budgets_def split: event.splits)

lemma outputs_append [simp]: "outputs (xs @ ys) = outputs xs @ outputs ys"
  by (simp add: outputs_def)

lemma failures_append [simp]: "failures (xs @ ys) = failures xs @ failures ys"
  by (simp add: failures_def)

lemma budgets_append [simp]: "budgets (xs @ ys) = budgets xs @ budgets ys"
  by (simp add: budgets_def)

lemma polling_silent:
  "list_all polling (map snd new) \<Longrightarrow> outputs new = [] \<and> failures new = [] \<and> budgets new = []"
  by (induction new) (auto simp: polling_def split: event.splits)

lemma requests_silent:
  "map snd new = map (\<lambda>i. Request (f i)) xs \<Longrightarrow> outputs new = [] \<and> failures new = [] \<and> budgets new = []"
  by (induction new arbitrary: xs) auto

lemma requests_then_output:
  assumes "map snd new = map (\<lambda>i. Request (f i)) xs @ [SetOutput n v]"
  shows "outputs new = [(n, v)] \<and> failures new = []"
proof -
  from assms obtain us vs where uv: "new = us @ vs" "map snd us = map (\<lambda>i. Request (f i)) xs"
    "map snd vs = [SetOutput n v]"
    by (auto simp: map_eq_append_conv)
  from uv(3) obtain t where "vs = [(t, SetOutput n v)]" by (cases vs) auto
  with uv(1) requests_silent [OF uv(2)] show ?thesis by simp
qed


lemma trace_apply_catch:
  "trace (apply_catch e w) =
     trace w @ [(clock w, Warning ''Does the token have the correct permissions?''),
                (clock w, SetFailed (message e))]"
  by (simp add: apply_catch_def trace_emit clock_emit)

lemma fetch_timeout_if:
  "(if WORKFLOW_FETCH_TIMEOUT_MS > timeoutMs then timeoutMs else WORKFLOW_FETCH_TIMEOUT_MS) =
     min WORKFLOW_FETCH_TIMEOUT_MS timeoutMs"
  by (simp add: min_def)

text \<open>One round of the \<open>while\<close> loop of \<open>applyWorkflowRunId\<close>, by the way the round ends.\<close>

lemma search_loop_enumeration_fails:
  assumes "elapsedTime < timeoutMs"
    and "retryOrDie p (getWorkflowRunIds p wid cfg) (min WORKFLOW_FETCH_TIMEOUT_MS timeoutMs)
           (emit (RetryOrDie (min WORKFLOW_FETCH_TIMEOUT_MS timeoutMs)) w) = Some (Inl e, w1)"
  shows "search_loop p wid cfg timeoutMs s elapsedTime n w = Some (Inl e, w1)"
  using assms by (subst search_loop.simps) (simp add: fetch_timeout_if)

lemma search_loop_inspection:
  assumes "elapsedTime < timeoutMs"
    and "retryOrDie p (getWorkflowRunIds p wid cfg) (min WORKFLOW_FETCH_TIMEOUT_MS timeoutMs)
           (emit (RetryOrDie (min WORKFLOW_FETCH_TIMEOUT_MS timeoutMs)) w) = Some (Inr ids, w1)"
    and "RegExp p (commitId cfg) = Inr t"
  shows "search_loop p wid cfg timeoutMs s elapsedTime n w =
           (case inspect_runs p cfg t ids w1 of
              (Return, w2) \<Rightarrow> Some (Inr (), w2)
            | (Throw e, w2) \<Rightarrow> Some (Inl e, w2)
            | (Continue, w2) \<Rightarrow>
                search_loop p wid cfg timeoutMs s (clock w - s) (n + 1)
                  (sleep p WORKFLOW_JOB_STEPS_RETRY_MS w2))"
  using assms by (subst search_loop.simps) (simp add: fetch_timeout_if)

lemma applyWorkflowRunId_enters:
  assumes "getNumberFromValue (workflowTimeoutSeconds cfg) = Inr v"
  shows "applyWorkflowRunId p wid cfg w =
           resolve_from p wid cfg (or_default v WORKFLOW_TIMEOUT_SECONDS * 1000) (clock w) 0 0 w"
  using assms by (simp add: applyWorkflowRunId_def)


subsection \<open>Scenario facts\<close>

lemma demo_timeout: "getNumberFromValue (workflowTimeoutSeconds demo_config) = Inr (Some 6)"
  by (simp add: demo_config_def getNumberFromValue_def parseInt_def isWhiteSpace_def isDigit_def
      digitValue_def digitsValue_def)

lemma demo_RegExp:
  "RegExp (scenario ids demo_jobs) (commitId demo_config) = Inr (search [Literal CHR ''M'', Literal CHR ''1''])"
  by (simp add: RegExp_def demo_config_def SyntaxCharacter_def)

lemma demo_enumeration:
  "ids \<noteq> [] \<Longrightarrow>
   retryOrDie (scenario ids demo_jobs) (getWorkflowRunIds (scenario ids demo_jobs) 7 demo_config) 6000
     (emit (RetryOrDie 6000) w) =
   Some (Inr ids,
         w\<lparr>trace := trace w @ [(clock w, RetryOrDie 6000),
            (clock w, Request (ListWorkflowRuns ''microtema'' (Some ''workflow-dispatch'') 7 (Some ''main'') 5))]\<rparr>)"
  by (simp add: retryOrDie_def retryOrDie_loop.simps [of _ _ _ _ 0] getWorkflowRunIds_def
      listWorkflowRuns_params_def getBranchName_def demo_config_def scenario_def call_def emit_def comp_def)


lemma demo_steps:
  "fst (getWorkflowRunJobSteps (scenario ids demo_jobs) i demo_config w) =
     (if i = 101 then Inr [''checkout'', ''build'']
      else if i = 102 then Inr [''checkout'', ''build'', ''echo M1 done'']
      else if i = 103 then Inl (Error ''Bad credentials'')
      else Inl (Error ''Not Found''))"
  by (simp add: getWorkflowRunJobSteps_def listJobs_params_def scenario_def demo_jobs_def
      allSteps_def job_step_names_def Array_from_Set_def)

lemma demo_has_marker:
  "has_marker (scenario ids demo_jobs) demo_config (search [Literal CHR ''M'', Literal CHR ''1'']) 102 w"
  by (simp add: has_marker_def demo_steps)

lemma demo_passed_over:
  "i = 100 \<or> i = 101 \<Longrightarrow>
   passed_over (scenario ids demo_jobs) demo_config (search [Literal CHR ''M'', Literal CHR ''1'']) i w"
  by (auto simp: passed_over_def demo_steps)


subsection \<open>Resolution and failure of a round\<close>

text \<open>
  C1, as amended.  Take any round of the loop of \<open>applyWorkflowRunId\<close> that is entered, in which the
  enumeration returns the run ids \<open>workflowRunIds\<close>.  Let \<open>r\<close> be among them and have a
  step that passes the test, and let every run listed before \<open>r\<close> be passed over (no step
  passes, or its job listing is not found).  Then the function ends there: after the
  enumeration it requests the job listings of the runs before \<open>r\<close> and of \<open>r\<close>, in the
  order of the list and one per entry, sets the output \<open>runId\<close> to \<open>r\<close>, and does nothing
  else; no run after \<open>r\<close> is inspected and no failure is signalled.  Where \<open>r\<close> stands in
  the list does not matter.  The first round of \<open>applyWorkflowRunId\<close> is such a round
  when the timeout option parses to a positive time.  The key of the output in
  \<open>dispatch.ts\<close> is \<open>runId\<close>.
\<close>

theorem applyWorkflowRunId_resolves:
  assumes "elapsedTime < timeoutMs"
    and "timeout = min WORKFLOW_FETCH_TIMEOUT_MS timeoutMs"
    and "retryOrDie p (getWorkflowRunIds p workflowId cfg) timeout (emit (RetryOrDie timeout) w) =
           Some (Inr workflowRunIds, w_enum)"
    and "RegExp p (commitId cfg) = Inr idRegex_test"
    and "r \<in> set workflowRunIds"
    and "\<forall>w. has_marker p cfg idRegex_test r w"
    and "\<forall>i\<in>set (takeWhile (\<lambda>i. i \<noteq> r) workflowRunIds). \<forall>w. passed_over p cfg idRegex_test i w"
  shows "\<exists>w' new.
           resolve_from p workflowId cfg timeoutMs startTime elapsedTime attemptNo w = Some w' \<and>
           trace w' = trace w_enum @ new \<and>
           map snd new =
             map (\<lambda>i. Request (listJobs_params i cfg)) (takeWhile (\<lambda>i. i \<noteq> r) workflowRunIds @ [r]) @
             [SetOutput ''runId'' r] \<and>
           outputs (trace w') = outputs (trace w) @ [(''runId'', r)] \<and>
           failures (trace w') = failures (trace w) \<and>
           (getNumberFromValue (workflowTimeoutSeconds cfg) = Inr v \<and>
            timeoutMs = or_default v WORKFLOW_TIMEOUT_SECONDS * 1000 \<and>
            startTime = clock w \<and> elapsedTime = 0 \<and> attemptNo = 0 \<longrightarrow>
              applyWorkflowRunId p workflowId cfg w = Some w')"
proof -
  from assms(5) obtain xs ys where ids: "workflowRunIds = xs @ r # ys" and nr: "r \<notin> set xs"
    by (auto dest: split_list_first)
  have "takeWhile (\<lambda>i. i \<noteq> r) (xs @ r # ys) = xs @ takeWhile (\<lambda>i. i \<noteq> r) (r # ys)"
    by (rule takeWhile_append2) (use nr in auto)
  then have tw: "takeWhile (\<lambda>i. i \<noteq> r) workflowRunIds = xs"
    by (simp add: ids)
  have po: "\<forall>i\<in>set xs. \<forall>w. passed_over p cfg idRegex_test i w"
    using assms(7) by (simp add: tw)
  from inspect_runs_returns [OF po assms(6), of ys w_enum] obtain w' new where
    ret: "inspect_runs p cfg idRegex_test workflowRunIds w_enum = (Return, w')"
    and tr: "trace w' = trace w_enum @ new"
    and ev: "map snd new = map (\<lambda>i. Request (listJobs_params i cfg)) (xs @ [r]) @ [SetOutput ''runId'' r]"
    unfolding ids by blast
  have "search_loop p workflowId cfg timeoutMs startTime elapsedTime attemptNo w = Some (Inr (), w')"
    using search_loop_inspection [OF assms(1) assms(3) [unfolded assms(2)] assms(4)] ret
    by simp
  then have run: "resolve_from p workflowId cfg timeoutMs startTime elapsedTime attemptNo w = Some w'"
    by (simp add: resolve_from_def)
  from retryOrDie_polling [OF assms(3)] obtain new1 where
    n1: "trace w_enum = trace (emit (RetryOrDie timeout) w) @ new1" "list_all polling (map snd new1)"
    by blast
  have quiet1: "outputs new1 = [] \<and> failures new1 = []"
    using polling_silent [OF n1(2)] by simp
  have obs: "outputs new = [(''runId'', r)] \<and> failures new = []"
    by (rule requests_then_output [OF ev])
  show ?thesis
  proof (intro exI conjI impI)
    show "resolve_from p workflowId cfg timeoutMs startTime elapsedTime attemptNo w = Some w'"
      by (rule run)
    show "trace w' = trace w_enum @ new" by (rule tr)
    show "map snd new =
             map (\<lambda>i. Request (listJobs_params i cfg)) (takeWhile (\<lambda>i. i \<noteq> r) workflowRunIds @ [r]) @
             [SetOutput ''runId'' r]"
      using ev by (simp add: tw)
    show "outputs (trace w') = outputs (trace w) @ [(''runId'', r)]"
      by (simp add: tr n1 trace_emit quiet1 obs)
    show "failures (trace w') = failures (trace w)"
      by (simp add: tr n1 trace_emit quiet1 obs)
    assume "getNumberFromValue (workflowTimeoutSeconds cfg) = Inr v \<and>
            timeoutMs = or_default v WORKFLOW_TIMEOUT_SECONDS * 1000 \<and>
            startTime = clock w \<and> elapsedTime = 0 \<and> attemptNo = 0"
    then show "applyWorkflowRunId p workflowId cfg w = Some w'"
      using run by (simp add: applyWorkflowRunId_enters)
  qed
qed


theorem applyWorkflowRunId_resolves_witness:
  "\<exists>w'. applyWorkflowRunId (scenario [100, 101, 102, 103] demo_jobs) 7 demo_config world0 = Some w' \<and>
      map snd (trace w') =
        [RetryOrDie 6000,
         Request (ListWorkflowRuns ''microtema'' (Some ''workflow-dispatch'') 7 (Some ''main'') 5),
         Request (ListJobsForWorkflowRun ''microtema'' (Some ''workflow-dispatch'') 100 ''latest''),
         Request (ListJobsForWorkflowRun ''microtema'' (Some ''workflow-dispatch'') 101 ''latest''),
         Request (ListJobsForWorkflowRun ''microtema'' (Some ''workflow-dispatch'') 102 ''latest''),
         SetOutput ''runId'' 102] \<and>
      outputs (trace w') = [(''runId'', 102)] \<and> failures (trace w') = []"
proof -
  let ?p = "scenario [100, 101, 102, 103] demo_jobs"
  let ?t = "search [Literal CHR ''M'', Literal CHR ''1'']"
  have h1: "(0::int) < 6000" by simp
  have h2: "(6000::int) = min WORKFLOW_FETCH_TIMEOUT_MS 6000"
    by (simp add: WORKFLOW_FETCH_TIMEOUT_MS_def)
  have h3: "retryOrDie ?p (getWorkflowRunIds ?p 7 demo_config) 6000 (emit (RetryOrDie 6000) world0) =
      Some (Inr [100, 101, 102, 103],
        world0\<lparr>trace := trace world0 @ [(clock world0, RetryOrDie 6000),
          (clock world0, Request (ListWorkflowRuns ''microtema'' (Some ''workflow-dispatch'') 7 (Some ''main'') 5))]\<rparr>)"
    by (rule demo_enumeration) simp
  have h5: "(102::int) \<in> set [100, 101, 102, 103]" by simp
  have h6: "\<forall>w. has_marker ?p demo_config ?t 102 w"
    by (simp add: demo_has_marker)
  have h7: "\<forall>i\<in>set (takeWhile (\<lambda>i. i \<noteq> 102) [100, 101, 102, 103 :: int]). \<forall>w. passed_over ?p demo_config ?t i w"
    by (simp add: demo_passed_over)
  have enter: "getNumberFromValue (workflowTimeoutSeconds demo_config) = Inr (Some 6) \<and>
     (6000::int) = or_default (Some 6) WORKFLOW_TIMEOUT_SECONDS * 1000 \<and>
     clock world0 = clock world0 \<and> (0::int) = 0 \<and> (0::nat) = 0"
    by (simp add: demo_timeout or_default_def)
  from applyWorkflowRunId_resolves [OF h1 h2 h3 demo_RegExp h5 h6 h7,
      where startTime = "clock world0" and attemptNo = 0 and v = "Some 6"] enter
  obtain w' new where
    r: "applyWorkflowRunId ?p 7 demo_config world0 = Some w'"
    and tr: "trace w' = trace (world0\<lparr>trace := trace world0 @ [(clock world0, RetryOrDie 6000),
          (clock world0, Request (ListWorkflowRuns ''microtema'' (Some ''workflow-dispatch'') 7 (Some ''main'') 5))]\<rparr>) @ new"
    and ev: "map snd new = map (\<lambda>i. Request (listJobs_params i demo_config))
               (takeWhile (\<lambda>i. i \<noteq> 102) [100, 101, 102, 103] @ [102]) @ [SetOutput ''runId'' 102]"
    and ob: "outputs (trace w') = outputs (trace world0) @ [(''runId'', 102)]"
      "failures (trace w') = failures (trace world0)"
    by blast
  from r tr ev ob show ?thesis
    by (auto simp: world0_def listJobs_params_def demo_config_def)
qed


text \<open>
  C1, as stated, fails.  The run 102 is the one run with the marker among the runs 100,
  101, 102 and 103; \<open>applyWorkflowRunId\<close> sets one output, with the key \<open>runId\<close>, and
  none with the key \<open>run_id\<close>.
\<close>

theorem output_key_counterexample:
  "map_option (outputs \<circ> trace)
     (applyWorkflowRunId (scenario [100, 101, 102, 103] demo_jobs) 7 demo_config world0) =
     Some [(''runId'', 102)] \<and>
   map_option (outputs \<circ> trace)
     (applyWorkflowRunId (scenario [100, 101, 102, 103] demo_jobs) 7 demo_config world0) \<noteq>
     Some [(''run_id'', 102)] \<and>
   map_option (list_ex (\<lambda>kv. fst kv = ''run_id'') \<circ> outputs \<circ> trace)
     (applyWorkflowRunId (scenario [100, 101, 102, 103] demo_jobs) 7 demo_config world0) =
     Some False"
  by code_simp


lemma requests_then_failure:
  assumes "map snd new = map (\<lambda>i. Request (f i)) xs"
  shows "outputs (new @ [(t, Warning a), (t', SetFailed m)]) = [] \<and>
         failures (new @ [(t, Warning a), (t', SetFailed m)]) = [m]"
  using requests_silent [OF assms] by simp




subsection \<open>The marker test in the loop over the runs\<close>

text \<open>
  C7.  For a marker without syntax characters the test that \<open>applyWorkflowRunId\<close> builds
  from \<open>config.commitId\<close> accepts exactly the step names in which the marker occurs as a
  contiguous part; so a step name that embeds the marker is accepted whether or not it is
  equal to the marker.  This test decides the inspection of a run.  When the job listing of
  the run answers with step names, the loop over the runs sets the output \<open>runId\<close> to the
  run and returns if the marker occurs in one of the names, and goes on with the next run
  in the world after the listing if it occurs in none.  So does a round of
  \<open>applyWorkflowRunId\<close> that is entered and whose enumeration returns the run first: it
  ends with the output set if the marker occurs in a step name of the run; if not, it goes
  by the rest of the runs, and when none of them ends it, it waits 5 seconds and starts the
  next round.
\<close>

theorem idRegex_test_is_search:
  assumes "\<forall>c\<in>set marker. \<not> SyntaxCharacter c"
    and "commitId cfg = Some marker"
    and "getWorkflowRunJobSteps p runId cfg w_enum = (Inr steps, w_insp)"
  shows "\<exists>idRegex_test.
           RegExp p (commitId cfg) = Inr idRegex_test \<and>
           (\<forall>stp. idRegex_test stp \<longleftrightarrow> sublist marker stp) \<and>
           idRegex_test (before @ marker @ after) \<and>
           inspect_runs p cfg idRegex_test (runId # rest) w_enum =
             (if \<exists>stp\<in>set steps. sublist marker stp
              then (Return, emit (SetOutput ''runId'' runId) w_insp)
              else inspect_runs p cfg idRegex_test rest w_insp) \<and>
           (elapsedTime < timeoutMs \<and>
            retryOrDie p (getWorkflowRunIds p workflowId cfg) (min WORKFLOW_FETCH_TIMEOUT_MS timeoutMs)
              (emit (RetryOrDie (min WORKFLOW_FETCH_TIMEOUT_MS timeoutMs)) w) =
              Some (Inr (runId # rest), w_enum) \<longrightarrow>
            resolve_from p workflowId cfg timeoutMs startTime elapsedTime attemptNo w =
              (if \<exists>stp\<in>set steps. sublist marker stp
               then Some (emit (SetOutput ''runId'' runId) w_insp)
               else case inspect_runs p cfg idRegex_test rest w_insp of
                      (Return, w2) \<Rightarrow> Some w2
                    | (Throw e, w2) \<Rightarrow> Some (apply_catch e w2)
                    | (Continue, w2) \<Rightarrow>
                        resolve_from p workflowId cfg timeoutMs startTime (clock w - startTime)
                          (attemptNo + 1) (sleep p WORKFLOW_JOB_STEPS_RETRY_MS w2)))"
proof -
  let ?t = "search (map Literal marker)"
  have rx: "RegExp p (commitId cfg) = Inr ?t"
    using assms(1,2) by (simp add: RegExp_def parse_atoms_literal)
  have t: "\<forall>stp. ?t stp \<longleftrightarrow> sublist marker stp"
    by (simp add: search_literal)
  have ex: "list_ex ?t steps \<longleftrightarrow> (\<exists>stp\<in>set steps. sublist marker stp)"
    by (simp add: list_ex_iff search_literal)
  have ir: "inspect_runs p cfg ?t (runId # rest) w_enum =
             (if \<exists>stp\<in>set steps. sublist marker stp
              then (Return, emit (SetOutput ''runId'' runId) w_insp)
              else inspect_runs p cfg ?t rest w_insp)"
    using assms(3) ex by simp
  have rd: "resolve_from p workflowId cfg timeoutMs startTime elapsedTime attemptNo w =
              (if \<exists>stp\<in>set steps. sublist marker stp
               then Some (emit (SetOutput ''runId'' runId) w_insp)
               else case inspect_runs p cfg ?t rest w_insp of
                      (Return, w2) \<Rightarrow> Some w2
                    | (Throw e, w2) \<Rightarrow> Some (apply_catch e w2)
                    | (Continue, w2) \<Rightarrow>
                        resolve_from p workflowId cfg timeoutMs startTime (clock w - startTime)
                          (attemptNo + 1) (sleep p WORKFLOW_JOB_STEPS_RETRY_MS w2))"
    if en: "elapsedTime < timeoutMs"
      and enum: "retryOrDie p (getWorkflowRunIds p workflowId cfg) (min WORKFLOW_FETCH_TIMEOUT_MS timeoutMs)
              (emit (RetryOrDie (min WORKFLOW_FETCH_TIMEOUT_MS timeoutMs)) w) =
              Some (Inr (runId # rest), w_enum)"
  proof -
    note sl = search_loop_inspection [OF en enum rx, of startTime attemptNo]
    show ?thesis
    proof (cases "\<exists>stp\<in>set steps. sublist marker stp")
      case True
      then show ?thesis
        using sl ir by (simp add: resolve_from_def)
    next
      case False
      then have ir': "inspect_runs p cfg ?t (runId # rest) w_enum = inspect_runs p cfg ?t rest w_insp"
        using ir by simp
      obtain x w2 where x: "inspect_runs p cfg ?t rest w_insp = (x, w2)"
        by (cases "inspect_runs p cfg ?t rest w_insp")
      show ?thesis
        unfolding resolve_from_def sl ir' x using False
        by (cases x) simp_all
    qed
  qed
  show ?thesis
  proof (intro exI conjI impI)
    show "RegExp p (commitId cfg) = Inr ?t" by (rule rx)
    show "\<forall>stp. ?t stp \<longleftrightarrow> sublist marker stp" by (rule t)
    show "?t (before @ marker @ after)" by (simp add: search_literal)
    show "inspect_runs p cfg ?t (runId # rest) w_enum =
             (if \<exists>stp\<in>set steps. sublist marker stp
              then (Return, emit (SetOutput ''runId'' runId) w_insp)
              else inspect_runs p cfg ?t rest w_insp)" by (rule ir)
  next
    assume "elapsedTime < timeoutMs \<and>
            retryOrDie p (getWorkflowRunIds p workflowId cfg) (min WORKFLOW_FETCH_TIMEOUT_MS timeoutMs)
              (emit (RetryOrDie (min WORKFLOW_FETCH_TIMEOUT_MS timeoutMs)) w) =
              Some (Inr (runId # rest), w_enum)"
    then show "resolve_from p workflowId cfg timeoutMs startTime elapsedTime attemptNo w =
              (if \<exists>stp\<in>set steps. sublist marker stp
               then Some (emit (SetOutput ''runId'' runId) w_insp)
               else case inspect_runs p cfg ?t rest w_insp of
                      (Return, w2) \<Rightarrow> Some w2
                    | (Throw e, w2) \<Rightarrow> Some (apply_catch e w2)
                    | (Continue, w2) \<Rightarrow>
                        resolve_from p workflowId cfg timeoutMs startTime (clock w - startTime)
                          (attemptNo + 1) (sleep p WORKFLOW_JOB_STEPS_RETRY_MS w2))"
      using rd by blast
  qed
qed

theorem idRegex_test_is_search_witness:
  "''echo M1 done'' \<noteq> ''M1'' \<and>
   (\<exists>idRegex_test.
      RegExp (scenario [102] demo_jobs) (commitId demo_config) = Inr idRegex_test \<and>
      idRegex_test ''echo M1 done'' \<and> \<not> idRegex_test ''build'' \<and>
      inspect_runs (scenario [102] demo_jobs) demo_config idRegex_test [102] world0 =
        (Return,
         \<lparr>clock = 0, trace =
            [(0, Request (ListJobsForWorkflowRun ''microtema'' (Some ''workflow-dispatch'') 102 ''latest'')),
             (0, SetOutput ''runId'' 102)]\<rparr>) \<and>
      inspect_runs (scenario [102] demo_jobs) demo_config idRegex_test [101] world0 =
        (Continue,
         \<lparr>clock = 0, trace =
            [(0, Request (ListJobsForWorkflowRun ''microtema'' (Some ''workflow-dispatch'') 101 ''latest''))]\<rparr>)) \<and>
   resolve_from (scenario [102] demo_jobs) 7 demo_config 6000 0 0 0 world0 =
     Some \<lparr>clock = 0, trace =
       [(0, RetryOrDie 6000),
        (0, Request (ListWorkflowRuns ''microtema'' (Some ''workflow-dispatch'') 7 (Some ''main'') 5)),
        (0, Request (ListJobsForWorkflowRun ''microtema'' (Some ''workflow-dispatch'') 102 ''latest'')),
        (0, SetOutput ''runId'' 102)]\<rparr>"
proof -
  let ?p = "scenario [102] demo_jobs"
  let ?J = "\<lambda>i. (0::int, Request (ListJobsForWorkflowRun ''microtema'' (Some ''workflow-dispatch'') i ''latest''))"
  let ?E = "[(0::int, RetryOrDie 6000),
            (0, Request (ListWorkflowRuns ''microtema'' (Some ''workflow-dispatch'') 7 (Some ''main'') 5))]"
  have safe: "\<forall>c\<in>set ''M1''. \<not> SyntaxCharacter c"
    by (simp add: SyntaxCharacter_def)
  have mk: "commitId demo_config = Some ''M1''"
    by (simp add: demo_config_def)
  have s102: "getWorkflowRunJobSteps ?p 102 demo_config world0 =
      (Inr [''checkout'', ''build'', ''echo M1 done''], \<lparr>clock = 0, trace = [?J 102]\<rparr>)"
    by code_simp
  have s101: "getWorkflowRunJobSteps ?p 101 demo_config world0 =
      (Inr [''checkout'', ''build''], \<lparr>clock = 0, trace = [?J 101]\<rparr>)"
    by code_simp
  have s102e: "getWorkflowRunJobSteps ?p 102 demo_config \<lparr>clock = 0, trace = ?E\<rparr> =
      (Inr [''checkout'', ''build'', ''echo M1 done''], \<lparr>clock = 0, trace = ?E @ [?J 102]\<rparr>)"
    by code_simp
  have en: "retryOrDie ?p (getWorkflowRunIds ?p 7 demo_config) (min WORKFLOW_FETCH_TIMEOUT_MS 6000)
      (emit (RetryOrDie (min WORKFLOW_FETCH_TIMEOUT_MS 6000)) world0) =
      Some (Inr [102], \<lparr>clock = 0, trace = ?E\<rparr>)"
    by code_simp
  have sub: "\<exists>stp\<in>set [''checkout'', ''build'', ''echo M1 done'']. sublist ''M1'' stp"
    by (simp add: sublist_Cons_right)
  have nsub: "\<not> (\<exists>stp\<in>set [''checkout'', ''build'']. sublist ''M1'' stp)"
    by (simp add: sublist_Cons_right)
  have nb: "\<not> sublist ''M1'' ''build''"
    by (simp add: sublist_Cons_right)
  have nil: "inspect_runs ?p demo_config f [] v = (Continue, v)" for f v
    by simp
  from idRegex_test_is_search [OF safe mk s102, where before = "''echo ''" and after = "'' done''"
      and rest = "[]"]
  obtain t where
    t: "RegExp ?p (commitId demo_config) = Inr t" "\<forall>stp. t stp \<longleftrightarrow> sublist ''M1'' stp"
      "t (''echo '' @ ''M1'' @ '' done'')"
    and i102: "inspect_runs ?p demo_config t [102] world0 =
        (if \<exists>stp\<in>set [''checkout'', ''build'', ''echo M1 done'']. sublist ''M1'' stp
         then (Return, emit (SetOutput ''runId'' 102) \<lparr>clock = 0, trace = [?J 102]\<rparr>)
         else inspect_runs ?p demo_config t [] \<lparr>clock = 0, trace = [?J 102]\<rparr>)"
    by blast
  from idRegex_test_is_search [OF safe mk s101, where rest = "[]"]
  obtain t' where
    t': "RegExp ?p (commitId demo_config) = Inr t'"
    and i101: "inspect_runs ?p demo_config t' [101] world0 =
        (if \<exists>stp\<in>set [''checkout'', ''build'']. sublist ''M1'' stp
         then (Return, emit (SetOutput ''runId'' 101) \<lparr>clock = 0, trace = [?J 101]\<rparr>)
         else inspect_runs ?p demo_config t' [] \<lparr>clock = 0, trace = [?J 101]\<rparr>)"
    by blast
  have tt: "t' = t" using t(1) t' by simp
  from idRegex_test_is_search [OF safe mk s102e, where rest = "[]" and elapsedTime = 0
      and timeoutMs = 6000 and workflowId = 7 and w = world0 and startTime = 0 and attemptNo = 0]
  obtain t'' where
    imp: "(0::int) < 6000 \<and>
     retryOrDie ?p (getWorkflowRunIds ?p 7 demo_config) (min WORKFLOW_FETCH_TIMEOUT_MS 6000)
       (emit (RetryOrDie (min WORKFLOW_FETCH_TIMEOUT_MS 6000)) world0) =
       Some (Inr [102], \<lparr>clock = 0, trace = ?E\<rparr>) \<longrightarrow>
     resolve_from ?p 7 demo_config 6000 0 0 0 world0 =
       (if \<exists>stp\<in>set [''checkout'', ''build'', ''echo M1 done'']. sublist ''M1'' stp
        then Some (emit (SetOutput ''runId'' 102) \<lparr>clock = 0, trace = ?E @ [?J 102]\<rparr>)
        else case inspect_runs ?p demo_config t'' [] \<lparr>clock = 0, trace = ?E @ [?J 102]\<rparr> of
               (Return, w2) \<Rightarrow> Some w2
             | (Throw e, w2) \<Rightarrow> Some (apply_catch e w2)
             | (Continue, w2) \<Rightarrow>
                 resolve_from ?p 7 demo_config 6000 0 (clock world0 - 0) (0 + 1)
                   (sleep ?p WORKFLOW_JOB_STEPS_RETRY_MS w2))"
    by blast
  have lt: "(0::int) < 6000" by simp
  note imp [THEN mp, OF conjI [OF lt en]]
  then have rf: "resolve_from ?p 7 demo_config 6000 0 0 0 world0 =
      Some (emit (SetOutput ''runId'' 102) \<lparr>clock = 0, trace = ?E @ [?J 102]\<rparr>)"
    by (simp only: sub if_True)
  show ?thesis
  proof (intro conjI exI)
    show "''echo M1 done'' \<noteq> ''M1''" by simp
    show "RegExp ?p (commitId demo_config) = Inr t" by (rule t)
    show "t ''echo M1 done''" using t(3) by simp
    show "\<not> t ''build''" using t(2) nb by simp
    have "inspect_runs ?p demo_config t [102] world0 =
        (Return, emit (SetOutput ''runId'' 102) \<lparr>clock = 0, trace = [?J 102]\<rparr>)"
      using i102 by (simp only: sub if_True)
    then show "inspect_runs ?p demo_config t [102] world0 =
        (Return, \<lparr>clock = 0, trace = [?J 102, (0, SetOutput ''runId'' 102)]\<rparr>)"
      by (simp only: emit_def) simp
    have "inspect_runs ?p demo_config t [101] world0 =
        inspect_runs ?p demo_config t [] \<lparr>clock = 0, trace = [?J 101]\<rparr>"
      using i101 unfolding tt by (simp only: nsub if_False)
    then show "inspect_runs ?p demo_config t [101] world0 = (Continue, \<lparr>clock = 0, trace = [?J 101]\<rparr>)"
      by (simp only: nil)
    show "resolve_from ?p 7 demo_config 6000 0 0 0 world0 =
      Some \<lparr>clock = 0, trace =
        [(0, RetryOrDie 6000),
         (0, Request (ListWorkflowRuns ''microtema'' (Some ''workflow-dispatch'') 7 (Some ''main'') 5)),
         ?J 102, (0, SetOutput ''runId'' 102)]\<rparr>"
      using rf by (simp add: emit_def)
  qed
qed

subsection \<open>Termination and the whole run\<close>

lemma retryOrDie_loop_total:
  assumes prod: "\<forall>w. \<exists>new. trace (snd (retryFunc w)) = trace w @ new \<and> list_all polling (map snd new) \<and>
                 clock w \<le> clock (snd (retryFunc w))"
    and inv: "elapsedTime \<le> clock w - startTime"
  shows "\<exists>res w1 new. retryOrDie_loop p retryFunc timeoutMs startTime elapsedTime w = Some (res, w1) \<and>
           trace w1 = trace w @ new \<and> list_all polling (map snd new) \<and> clock w \<le> clock w1 \<and>
           (case res of
              Inl e \<Rightarrow> e = Error ''Timed out while attempting to fetch data'' \<or>
                        (\<exists>w. fst (retryFunc w) = Inl e)
            | Inr response \<Rightarrow> response \<noteq> [] \<and> (\<exists>w. fst (retryFunc w) = Inr response))"
  using inv
proof (induction "nat (timeoutMs - elapsedTime) + nat (timeoutMs - (clock w - startTime))"
    arbitrary: elapsedTime w rule: less_induct)
  case less
  show ?case
  proof (cases "elapsedTime < timeoutMs")
    case False
    then have "retryOrDie_loop p retryFunc timeoutMs startTime elapsedTime w =
        Some (Inl (Error ''Timed out while attempting to fetch data''), w)"
      by (subst retryOrDie_loop.simps) simp
    then show ?thesis by simp
  next
    case True
    obtain res w1 where fw: "retryFunc w = (res, w1)" by (cases "retryFunc w")
    from prod [rule_format, of w] fw obtain new1 where
      n1: "trace w1 = trace w @ new1" "list_all polling (map snd new1)" "clock w \<le> clock w1"
      by auto
    show ?thesis
    proof (cases "res = Inr []")
      case False
      then have "retryOrDie_loop p retryFunc timeoutMs startTime elapsedTime w = Some (res, w1)"
        using True fw by (subst retryOrDie_loop.simps) (auto split: sum.splits)
      moreover have "case res of
              Inl e \<Rightarrow> e = Error ''Timed out while attempting to fetch data'' \<or>
                        (\<exists>w. fst (retryFunc w) = Inl e)
            | Inr response \<Rightarrow> response \<noteq> [] \<and> (\<exists>w. fst (retryFunc w) = Inr response)"
        using False fw by (cases res) (auto intro: exI [of _ w])
      ultimately show ?thesis using n1 by auto
    next
      case empty: True
      let ?w' = "sleep p 1000 w1"
      have step: "retryOrDie_loop p retryFunc timeoutMs startTime elapsedTime w =
          retryOrDie_loop p retryFunc timeoutMs startTime (clock w - startTime) ?w'"
        using True fw empty by (subst retryOrDie_loop.simps) simp
      have adv: "clock w + 1000 \<le> clock ?w'"
        using n1 by (simp add: clock_sleep)
      have "\<exists>res w2 new. retryOrDie_loop p retryFunc timeoutMs startTime (clock w - startTime) ?w' = Some (res, w2) \<and>
           trace w2 = trace ?w' @ new \<and> list_all polling (map snd new) \<and> clock ?w' \<le> clock w2 \<and>
           (case res of
              Inl e \<Rightarrow> e = Error ''Timed out while attempting to fetch data'' \<or>
                        (\<exists>w. fst (retryFunc w) = Inl e)
            | Inr response \<Rightarrow> response \<noteq> [] \<and> (\<exists>w. fst (retryFunc w) = Inr response))"
      proof (rule less.hyps)
        show "nat (timeoutMs - (clock w - startTime)) + nat (timeoutMs - (clock ?w' - startTime))
              < nat (timeoutMs - elapsedTime) + nat (timeoutMs - (clock w - startTime))"
          using True less.prems adv by linarith
        show "clock w - startTime \<le> clock ?w' - startTime"
          using adv by simp
      qed
      then obtain res2 w2 new2 where
        r2: "retryOrDie_loop p retryFunc timeoutMs startTime (clock w - startTime) ?w' = Some (res2, w2)"
        and n2: "trace w2 = trace ?w' @ new2" "list_all polling (map snd new2)" "clock ?w' \<le> clock w2"
        and c2: "case res2 of
              Inl e \<Rightarrow> e = Error ''Timed out while attempting to fetch data'' \<or>
                        (\<exists>w. fst (retryFunc w) = Inl e)
            | Inr response \<Rightarrow> response \<noteq> [] \<and> (\<exists>w. fst (retryFunc w) = Inr response)"
        by blast
      show ?thesis
      proof (intro exI conjI)
        show "retryOrDie_loop p retryFunc timeoutMs startTime elapsedTime w = Some (res2, w2)"
          using step r2 by simp
        show "trace w2 = trace w @ (new1 @ (clock w1, Sleep 1000) # new2)"
          using n1 n2 by (simp add: trace_sleep)
        show "list_all polling (map snd (new1 @ (clock w1, Sleep 1000) # new2))"
          using n1 n2 by (simp add: polling_def)
        show "clock w \<le> clock w2"
          using adv n2 by simp
        show "case res2 of
              Inl e \<Rightarrow> e = Error ''Timed out while attempting to fetch data'' \<or>
                        (\<exists>w. fst (retryFunc w) = Inl e)
            | Inr response \<Rightarrow> response \<noteq> [] \<and> (\<exists>w. fst (retryFunc w) = Inr response)"
          by (rule c2)
      qed
    qed
  qed
qed

lemma inspect_runs_trace:
  "\<exists>new. trace (snd (inspect_runs p cfg t ids w)) = trace w @ new \<and>
         budgets new = [] \<and> failures new = [] \<and> clock w \<le> clock (snd (inspect_runs p cfg t ids w))"
proof (induction ids arbitrary: w)
  case Nil
  then show ?case by simp
next
  case (Cons i ids)
  obtain res w1 where g: "getWorkflowRunJobSteps p i cfg w = (res, w1)"
    by (cases "getWorkflowRunJobSteps p i cfg w")
  then have w1: "w1 = call p (listJobs_params i cfg) w"
    using snd_getWorkflowRunJobSteps [of p i cfg w] by simp
  from Cons.IH [of w1] obtain new where
    n: "trace (snd (inspect_runs p cfg t ids w1)) = trace w1 @ new"
      "budgets new = []" "failures new = []" "clock w1 \<le> clock (snd (inspect_runs p cfg t ids w1))"
    by blast
  have c: "clock w \<le> clock w1" by (simp add: w1 clock_call)
  have "snd (inspect_runs p cfg t (i # ids) w) = emit (SetOutput ''runId'' i) w1 \<or>
        snd (inspect_runs p cfg t (i # ids) w) = w1 \<or>
        snd (inspect_runs p cfg t (i # ids) w) = snd (inspect_runs p cfg t ids w1)"
    using g by (cases res) auto
  then consider (ret) "snd (inspect_runs p cfg t (i # ids) w) = emit (SetOutput ''runId'' i) w1"
    | (thr) "snd (inspect_runs p cfg t (i # ids) w) = w1"
    | (rec) "snd (inspect_runs p cfg t (i # ids) w) = snd (inspect_runs p cfg t ids w1)"
    by blast
  then show ?case
  proof cases
    case ret
    show ?thesis
      by (rule exI [of _ "[(clock w, Request (listJobs_params i cfg)), (clock w1, SetOutput ''runId'' i)]"])
        (simp only: ret, simp add: trace_emit clock_emit w1 trace_call clock_call)
  next
    case thr
    show ?thesis
      by (rule exI [of _ "[(clock w, Request (listJobs_params i cfg))]"])
        (simp only: thr, simp add: w1 trace_call clock_call)
  next
    case rec
    show ?thesis
      using n c
      by (intro exI [of _ "(clock w, Request (listJobs_params i cfg)) # new"])
        (simp only: rec, simp add: w1 trace_call)
  qed
qed

lemma search_loop_total:
  assumes inv: "elapsedTime \<le> clock w - startTime"
  shows "\<exists>res w' new. search_loop p wid cfg timeoutMs startTime elapsedTime n w = Some (res, w') \<and>
           trace w' = trace w @ new \<and> failures new = [] \<and>
           (\<forall>tb\<in>set (budgets new). snd tb = min WORKFLOW_FETCH_TIMEOUT_MS timeoutMs)"
  using inv
proof (induction "nat (timeoutMs - elapsedTime) + nat (timeoutMs - (clock w - startTime))"
    arbitrary: elapsedTime n w rule: less_induct)
  case less
  let ?B = "min WORKFLOW_FETCH_TIMEOUT_MS timeoutMs"
  show ?case
  proof (cases "elapsedTime < timeoutMs")
    case False
    then have "search_loop p wid cfg timeoutMs startTime elapsedTime n w =
        Some (Inl (Error ''Timeout exceeded while attempting to get Run ID''), w)"
      by (subst search_loop.simps) simp
    then show ?thesis by simp
  next
    case True
    let ?w0 = "emit (RetryOrDie ?B) w"
    from retryOrDie_loop_total [OF getWorkflowRunIds_polling [of p wid cfg], where elapsedTime = 0 and w = ?w0
        and startTime = "clock ?w0" and p = p and timeoutMs = ?B]
    obtain res w1 new1 where
      r1: "retryOrDie p (getWorkflowRunIds p wid cfg) ?B ?w0 = Some (res, w1)"
      and n1: "trace w1 = trace ?w0 @ new1" "list_all polling (map snd new1)" "clock ?w0 \<le> clock w1"
      unfolding retryOrDie_def by auto
    have q1: "outputs new1 = [] \<and> failures new1 = [] \<and> budgets new1 = []"
      by (rule polling_silent [OF n1(2)])
    show ?thesis
    proof (cases res)
      case (Inl e)
      have "search_loop p wid cfg timeoutMs startTime elapsedTime n w = Some (Inl e, w1)"
        by (rule search_loop_enumeration_fails [OF True r1 [unfolded Inl]])
      then show ?thesis
        using n1 q1 by (simp add: trace_emit)
    next
      case (Inr ids)
      show ?thesis
      proof (cases "RegExp p (commitId cfg)")
        case rxe: (Inl e)
        have "search_loop p wid cfg timeoutMs startTime elapsedTime n w = Some (Inl e, w1)"
          using True r1 Inr rxe by (subst search_loop.simps) (simp add: fetch_timeout_if)
        then show ?thesis
          using n1 q1 by (simp add: trace_emit)
      next
        case rx: (Inr t)
        obtain ex w2 where ir: "inspect_runs p cfg t ids w1 = (ex, w2)"
          by (cases "inspect_runs p cfg t ids w1")
        from inspect_runs_trace [of p cfg t ids w1] ir obtain new2 where
          n2: "trace w2 = trace w1 @ new2" "budgets new2 = []" "failures new2 = []" "clock w1 \<le> clock w2"
          by auto
        note sl = search_loop_inspection [OF True r1 [unfolded Inr] rx, of startTime n]
        show ?thesis
        proof (cases ex)
          case Return
          then have "search_loop p wid cfg timeoutMs startTime elapsedTime n w = Some (Inr (), w2)"
            using sl ir by simp
          then show ?thesis
            using n1 q1 n2 by (simp add: trace_emit)
        next
          case (Throw e)
          then have "search_loop p wid cfg timeoutMs startTime elapsedTime n w = Some (Inl e, w2)"
            using sl ir by simp
          then show ?thesis
            using n1 q1 n2 by (simp add: trace_emit)
        next
          case Continue
          let ?w' = "sleep p WORKFLOW_JOB_STEPS_RETRY_MS w2"
          have step: "search_loop p wid cfg timeoutMs startTime elapsedTime n w =
              search_loop p wid cfg timeoutMs startTime (clock w - startTime) (n + 1) ?w'"
            using sl ir Continue by simp
          have adv: "clock w + 5000 \<le> clock ?w'"
            using n1 n2 by (simp add: clock_sleep clock_emit WORKFLOW_JOB_STEPS_RETRY_MS_def)
          have "\<exists>res w' new. search_loop p wid cfg timeoutMs startTime (clock w - startTime) (n + 1) ?w' = Some (res, w') \<and>
              trace w' = trace ?w' @ new \<and> failures new = [] \<and>
              (\<forall>tb\<in>set (budgets new). snd tb = min WORKFLOW_FETCH_TIMEOUT_MS timeoutMs)"
          proof (rule less.hyps)
            show "nat (timeoutMs - (clock w - startTime)) + nat (timeoutMs - (clock ?w' - startTime))
                  < nat (timeoutMs - elapsedTime) + nat (timeoutMs - (clock w - startTime))"
              using True less.prems adv by linarith
            show "clock w - startTime \<le> clock ?w' - startTime"
              using adv by simp
          qed
          then obtain res3 w3 new3 where
            r3: "search_loop p wid cfg timeoutMs startTime (clock w - startTime) (n + 1) ?w' = Some (res3, w3)"
            and n3: "trace w3 = trace ?w' @ new3" "failures new3 = []"
              "\<forall>tb\<in>set (budgets new3). snd tb = min WORKFLOW_FETCH_TIMEOUT_MS timeoutMs"
            by blast
          show ?thesis
          proof (intro exI conjI)
            show "search_loop p wid cfg timeoutMs startTime elapsedTime n w = Some (res3, w3)"
              using step r3 by simp
            show "trace w3 = trace w @ ((clock w, RetryOrDie ?B) # new1 @ new2 @
                    (clock w2, Sleep WORKFLOW_JOB_STEPS_RETRY_MS) # new3)"
              using n1 n2 n3 by (simp add: trace_sleep trace_emit)
            show "failures ((clock w, RetryOrDie ?B) # new1 @ new2 @
                    (clock w2, Sleep WORKFLOW_JOB_STEPS_RETRY_MS) # new3) = []"
              using q1 n2 n3 by simp
            show "\<forall>tb\<in>set (budgets ((clock w, RetryOrDie ?B) # new1 @ new2 @
                    (clock w2, Sleep WORKFLOW_JOB_STEPS_RETRY_MS) # new3)).
                    snd tb = min WORKFLOW_FETCH_TIMEOUT_MS timeoutMs"
              using q1 n2 n3 by simp
          qed
        qed
      qed
    qed
  qed
qed







lemma demo_timeoutMs: "(6000::int) = or_default (Some 6) WORKFLOW_TIMEOUT_SECONDS * 1000"
  by (simp add: or_default_def)


text \<open>
  C2, as amended.  \<open>applyWorkflowRunId\<close> always ends, and every call of \<open>retryOrDie\<close>
  it makes, in whatever round and however much time has elapsed, carries the timeout
  \<open>min(60s, overall timeout)\<close>.  This is the remaining overall budget only as long as
  nothing has elapsed or at least 60 seconds remain.
\<close>

theorem applyWorkflowRunId_budget:
  assumes "getNumberFromValue (workflowTimeoutSeconds cfg) = Inr v"
    and "timeoutMs = or_default v WORKFLOW_TIMEOUT_SECONDS * 1000"
  shows "\<exists>w' new. applyWorkflowRunId p workflowId cfg w = Some w' \<and> trace w' = trace w @ new \<and>
           (\<forall>tb\<in>set (budgets new). snd tb = min WORKFLOW_FETCH_TIMEOUT_MS timeoutMs)"
proof -
  from search_loop_total [where elapsedTime = 0 and w = w and startTime = "clock w" and p = p
      and wid = workflowId and cfg = cfg and timeoutMs = timeoutMs and n = 0]
  obtain res w' new where
    r: "search_loop p workflowId cfg timeoutMs (clock w) 0 0 w = Some (res, w')"
    and n: "trace w' = trace w @ new"
      "\<forall>tb\<in>set (budgets new). snd tb = min WORKFLOW_FETCH_TIMEOUT_MS timeoutMs"
    by auto
  have enter: "applyWorkflowRunId p workflowId cfg w = resolve_from p workflowId cfg timeoutMs (clock w) 0 0 w"
    using applyWorkflowRunId_enters [OF assms(1)] assms(2) by simp
  show ?thesis
  proof (cases res)
    case (Inl e)
    then have "applyWorkflowRunId p workflowId cfg w = Some (apply_catch e w')"
      using enter r by (simp add: resolve_from_def)
    then show ?thesis
      using n by (simp add: trace_apply_catch)
  next
    case (Inr u)
    then have "applyWorkflowRunId p workflowId cfg w = Some w'"
      using enter r by (simp add: resolve_from_def)
    then show ?thesis
      using n by simp
  qed
qed


theorem applyWorkflowRunId_budget_witness:
  "\<exists>w' new. applyWorkflowRunId (scenario [101] demo_jobs) 7 demo_config world0 = Some w' \<and>
      trace w' = trace world0 @ new \<and> list_all (\<lambda>tb. snd tb = 6000) (budgets new)"
  using applyWorkflowRunId_budget [OF demo_timeout demo_timeoutMs,
      of "scenario [101] demo_jobs" 7 world0]
  by (simp add: WORKFLOW_FETCH_TIMEOUT_MS_def list_all_iff)


text \<open>
  C2, as stated, fails.  With an overall timeout of 6 seconds and a run that never has the
  marker, the second round starts after 5 seconds; one second of the overall budget
  remains, and \<open>retryOrDie\<close> is called with 6000 milliseconds, not with 1000.
\<close>

theorem budget_counterexample:
  "map_option (budgets \<circ> trace) (applyWorkflowRunId (scenario [101] demo_jobs) 7 demo_config world0) =
     Some [(0, 6000), (5000, 6000), (10000, 6000)] \<and>
   remaining_budget 6000 (clock world0) 5000 = 1000 \<and>
   map_option (budgets_follow_remaining 6000 (clock world0) \<circ> trace)
     (applyWorkflowRunId (scenario [101] demo_jobs) 7 demo_config world0) = Some False"
  by code_simp




subsection \<open>The main task\<close>

lemma demo_decode: "decode_inputs (scenario ids jobs_of\<lparr>dispatchWorkflow := d\<rparr>) demo_env = Inr [(''commitId'', ''M1'')]"
  by (simp add: decode_inputs_def demo_env_def scenario_def demo_inputs_def)

lemma demo_owner_repo: "owner_repo demo_env = (''microtema'', Some ''workflow-dispatch'')"
  by (simp add: owner_repo_def demo_env_def)

lemma demo_dispatch_ref: "dispatch_ref demo_env = ''refs/heads/main''"
  by (simp add: dispatch_ref_def demo_env_def)

lemma demo_matches:
  "workflow_matches (getInput demo_env ''workflow'')
     (Workflow 7 ''Message Echo 2'' ''.github/workflows/echo-2.yaml'')"
  by code_simp

lemma suffix_disabled: "suffix ''a disabled workflow'' disabled_workflow_message"
  by code_simp

lemma not_suffix_bad: "\<not> suffix ''a disabled workflow'' ''Bad credentials''"
  by code_simp


text \<open>
  C9.  Whatever error leaves the \<open>try\<close> block of \<open>run\<close>: when its message ends with
  \<open>a disabled workflow\<close>, \<open>run\<close> ends with the warning that no action was taken and
  signals no failure; otherwise it ends by signalling the failure with that message.  An
  error of the dispatch request is such an error: when the inputs decode, the workflow is
  found and the dispatch request fails, that error leaves the \<open>try\<close> block after the two
  requests.
\<close>

theorem run_catch_block:
  "(run_try p env w = Some (Inl e, w') \<longrightarrow>
      run p env w =
        Some (if suffix ''a disabled workflow'' (message e)
              then emit (Warning ''Workflow is disabled, no action was taken'') w'
              else emit (SetFailed (message e)) w') \<and>
      (\<forall>w''. run p env w = Some w'' \<longrightarrow>
         outputs (trace w'') = outputs (trace w') \<and>
         failures (trace w'') =
           (if suffix ''a disabled workflow'' (message e) then failures (trace w')
            else failures (trace w') @ [message e]))) \<and>
   (decode_inputs p env = Inr inputs \<and>
    list_rq = ListRepoWorkflows (fst (owner_repo env)) (snd (owner_repo env)) (dispatch_ref env) inputs \<and>
    listRepoWorkflows p w list_rq = Inr workflows \<and>
    find (workflow_matches (getInput env ''workflow'')) workflows = Some foundWorkflow \<and>
    dispatch_rq = DispatchWorkflow (fst (owner_repo env)) (snd (owner_repo env)) (wf_id foundWorkflow)
                    (dispatch_ref env) inputs \<and>
    dispatchWorkflow p (call p list_rq w) dispatch_rq = Inl e \<longrightarrow>
      run_try p env w = Some (Inl e, call p dispatch_rq (call p list_rq w)))"
proof (intro conjI impI allI)
  assume t: "run_try p env w = Some (Inl e, w')"
  then show r: "run p env w =
        Some (if suffix ''a disabled workflow'' (message e)
              then emit (Warning ''Workflow is disabled, no action was taken'') w'
              else emit (SetFailed (message e)) w')"
    by (simp add: run_def)
  fix w'' assume "run p env w = Some w''"
  with r have w'': "w'' = (if suffix ''a disabled workflow'' (message e)
              then emit (Warning ''Workflow is disabled, no action was taken'') w'
              else emit (SetFailed (message e)) w')"
    by simp
  show "outputs (trace w'') = outputs (trace w')"
    by (simp add: w'' trace_emit)
  show "failures (trace w'') =
           (if suffix ''a disabled workflow'' (message e) then failures (trace w')
            else failures (trace w') @ [message e])"
    by (simp add: w'' trace_emit)
next
  assume "decode_inputs p env = Inr inputs \<and>
    list_rq = ListRepoWorkflows (fst (owner_repo env)) (snd (owner_repo env)) (dispatch_ref env) inputs \<and>
    listRepoWorkflows p w list_rq = Inr workflows \<and>
    find (workflow_matches (getInput env ''workflow'')) workflows = Some foundWorkflow \<and>
    dispatch_rq = DispatchWorkflow (fst (owner_repo env)) (snd (owner_repo env)) (wf_id foundWorkflow)
                    (dispatch_ref env) inputs \<and>
    dispatchWorkflow p (call p list_rq w) dispatch_rq = Inl e"
  then show "run_try p env w = Some (Inl e, call p dispatch_rq (call p list_rq w))"
    by (clarsimp simp: run_try_def Let_def)
qed


theorem run_catch_block_witness:
  "run (scenario [100, 101, 102] demo_jobs\<lparr>dispatchWorkflow := (\<lambda>w rq. Inl (Error disabled_workflow_message))\<rparr>)
     demo_env world0 =
   Some \<lparr>clock = 0, trace =
     [(0, Request (ListRepoWorkflows ''microtema'' (Some ''workflow-dispatch'') ''refs/heads/main'' [(''commitId'', ''M1'')])),
      (0, Request (DispatchWorkflow ''microtema'' (Some ''workflow-dispatch'') 7 ''refs/heads/main'' [(''commitId'', ''M1'')])),
      (0, Warning ''Workflow is disabled, no action was taken'')]\<rparr> \<and>
   run (scenario [100, 101, 102] demo_jobs\<lparr>dispatchWorkflow := (\<lambda>w rq. Inl (Error ''Bad credentials''))\<rparr>)
     demo_env world0 =
   Some \<lparr>clock = 0, trace =
     [(0, Request (ListRepoWorkflows ''microtema'' (Some ''workflow-dispatch'') ''refs/heads/main'' [(''commitId'', ''M1'')])),
      (0, Request (DispatchWorkflow ''microtema'' (Some ''workflow-dispatch'') 7 ''refs/heads/main'' [(''commitId'', ''M1'')])),
      (0, SetFailed ''Bad credentials'')]\<rparr>"
proof -
  let ?l = "ListRepoWorkflows ''microtema'' (Some ''workflow-dispatch'') ''refs/heads/main'' [(''commitId'', ''M1'')]"
  let ?d = "DispatchWorkflow ''microtema'' (Some ''workflow-dispatch'') 7 ''refs/heads/main'' [(''commitId'', ''M1'')]"
  let ?wf = "Workflow 7 ''Message Echo 2'' ''.github/workflows/echo-2.yaml''"
  have path: "decode_inputs (scenario [100, 101, 102] demo_jobs\<lparr>dispatchWorkflow := (\<lambda>w rq. Inl (Error m))\<rparr>) demo_env =
      Inr [(''commitId'', ''M1'')] \<and>
    ?l = ListRepoWorkflows (fst (owner_repo demo_env)) (snd (owner_repo demo_env)) (dispatch_ref demo_env)
           [(''commitId'', ''M1'')] \<and>
    listRepoWorkflows (scenario [100, 101, 102] demo_jobs\<lparr>dispatchWorkflow := (\<lambda>w rq. Inl (Error m))\<rparr>) world0 ?l =
      Inr [?wf] \<and>
    find (workflow_matches (getInput demo_env ''workflow'')) [?wf] = Some ?wf \<and>
    ?d = DispatchWorkflow (fst (owner_repo demo_env)) (snd (owner_repo demo_env)) (wf_id ?wf)
           (dispatch_ref demo_env) [(''commitId'', ''M1'')] \<and>
    dispatchWorkflow (scenario [100, 101, 102] demo_jobs\<lparr>dispatchWorkflow := (\<lambda>w rq. Inl (Error m))\<rparr>)
      (call (scenario [100, 101, 102] demo_jobs\<lparr>dispatchWorkflow := (\<lambda>w rq. Inl (Error m))\<rparr>) ?l world0) ?d =
      Inl (Error m)" for m
    by (simp add: demo_decode demo_owner_repo demo_dispatch_ref demo_matches) (simp add: scenario_def)
  have tr: "run_try (scenario [100, 101, 102] demo_jobs\<lparr>dispatchWorkflow := (\<lambda>w rq. Inl (Error m))\<rparr>) demo_env world0 =
      Some (Inl (Error m),
        call (scenario [100, 101, 102] demo_jobs\<lparr>dispatchWorkflow := (\<lambda>w rq. Inl (Error m))\<rparr>) ?d
          (call (scenario [100, 101, 102] demo_jobs\<lparr>dispatchWorkflow := (\<lambda>w rq. Inl (Error m))\<rparr>) ?l world0))" for m
    using run_catch_block [THEN conjunct2, rule_format, OF path [of m]] .
  have "run (scenario [100, 101, 102] demo_jobs\<lparr>dispatchWorkflow := (\<lambda>w rq. Inl (Error m))\<rparr>) demo_env world0 =
        Some (if suffix ''a disabled workflow'' m
              then emit (Warning ''Workflow is disabled, no action was taken'')
                (call (scenario [100, 101, 102] demo_jobs\<lparr>dispatchWorkflow := (\<lambda>w rq. Inl (Error m))\<rparr>) ?d
                  (call (scenario [100, 101, 102] demo_jobs\<lparr>dispatchWorkflow := (\<lambda>w rq. Inl (Error m))\<rparr>) ?l world0))
              else emit (SetFailed m)
                (call (scenario [100, 101, 102] demo_jobs\<lparr>dispatchWorkflow := (\<lambda>w rq. Inl (Error m))\<rparr>) ?d
                  (call (scenario [100, 101, 102] demo_jobs\<lparr>dispatchWorkflow := (\<lambda>w rq. Inl (Error m))\<rparr>) ?l world0)))" for m
    using run_catch_block [THEN conjunct1, rule_format, OF tr [of m], THEN conjunct1] by simp
  from this [of disabled_workflow_message] this [of "''Bad credentials''"]
  show ?thesis
    by (simp add: suffix_disabled not_suffix_bad call_def emit_def scenario_def world0_def)
qed

end
